theory Spec2Isabelle
  imports Main "HOL-Library.Word"
begin

unbundle bit_operations_syntax

section \<open>Control flow of the embedded routines\<close>

text \<open>
  Every routine of the hypervisor is embedded as a function from the state it can touch
  to a \<open>flow\<close>: it returns to its caller (with its return value and the new state), it
  stops in a fault, or it hands the processor to the guest with \<open>vmlaunch\<close> and so does
  not come back to its caller.
\<close>

datatype fault = Assertion_failed | Undefined_behaviour

datatype ('r, 's) flow = Returned 'r 's | Faulted fault 's | Vm_entered 's

abbreviation Done :: "'s \<Rightarrow> (unit, 's) flow" where
  "Done s \<equiv> Returned () s"

text \<open>Sequencing: the second routine runs only when the first one returned.\<close>

fun then_do :: "('a, 's) flow \<Rightarrow> ('s \<Rightarrow> ('b, 's) flow) \<Rightarrow> ('b, 's) flow" where
  "then_do (Returned r s) f = f s"
| "then_do (Faulted e s) f = Faulted e s"
| "then_do (Vm_entered s) f = Vm_entered s"

text \<open>
  \<open>hvpp_assert\<close> is a macro of lib/assert.h, which is not among the sources, so whether
  assertions are compiled in is a parameter: with \<open>asserts = True\<close> a failed assertion
  stops the routine where it stands, with \<open>asserts = False\<close> the macro expands to nothing
  and the routine goes on.
\<close>

definition hvpp_assert :: "bool \<Rightarrow> bool \<Rightarrow> 's \<Rightarrow> (unit, 's) flow" where
  "hvpp_assert asserts cond s = (if asserts \<and> \<not> cond then Faulted Assertion_failed s else Done s)"

section \<open>Data model (vcpu.h)\<close>

datatype vcpu_state = off | initializing | launching | running | terminating | terminated

text \<open>
  The enumerators count from zero. \<open>static_cast<uint64_t>(state)\<close> widens the enumerator;
  \<open>static_cast<vcpu_state>(x)\<close> of a 64-bit register value converts to the underlying type
  of the enumeration, \<open>int\<close>, and so keeps the low 32 bits only. A value that is no
  enumerator matches no \<open>case\<close> label.
\<close>

definition vcpu_state_to_word :: "vcpu_state \<Rightarrow> 64 word" where
  "vcpu_state_to_word st =
     (case st of off \<Rightarrow> 0 | initializing \<Rightarrow> 1 | launching \<Rightarrow> 2 | running \<Rightarrow> 3
      | terminating \<Rightarrow> 4 | terminated \<Rightarrow> 5)"

definition vcpu_state_of_int :: "32 word \<Rightarrow> vcpu_state option" where
  "vcpu_state_of_int i =
     (if i = 0 then Some off else if i = 1 then Some initializing
      else if i = 2 then Some launching else if i = 3 then Some running
      else if i = 4 then Some terminating else if i = 5 then Some terminated
      else None)"

definition vcpu_state_of_word :: "64 word \<Rightarrow> vcpu_state option" where
  "vcpu_state_of_word w = vcpu_state_of_int (ucast w)"

text \<open>The registers of \<open>context_t\<close> that the embedded code reads or writes.\<close>

record context_t =
  rax :: "64 word"
  rsp :: "64 word"
  rip :: "64 word"
  rflags :: "64 word"

definition context_clear :: "context_t" where
  "context_clear = \<lparr>rax = 0, rsp = 0, rip = 0, rflags = 0\<rparr>"

text \<open>\<open>vcpu_stack_t\<close>: only the two slots of the machine frame are ever addressed by name.\<close>

record vcpu_stack_t =
  machine_frame_rip :: "64 word"
  machine_frame_rsp :: "64 word"

record interrupt_t =
  vector :: "8 word"
  interrupt_type :: "3 word"
  error_code_valid :: bool
  nmi_unblocking :: bool
  valid :: bool
  error_code :: "32 word"
  rip_adjust :: int

text \<open>The private default constructor of \<open>interrupt_t\<close> value-initialises every member.\<close>

definition interrupt_t_default :: interrupt_t where
  "interrupt_t_default =
     \<lparr>vector = 0, interrupt_type = 0, error_code_valid = False, nmi_unblocking = False,
      valid = False, error_code = 0, rip_adjust = 0\<rparr>"

definition pending_interrupt_queue_size :: nat where
  "pending_interrupt_queue_size = 16"

text \<open>
  An extended-page-table instance: the core only reads its hardware-loadable pointer.
\<close>

record ept_t =
  ept_pointer :: "64 word"

type_synonym fxsave_area_t = "8 word list"

text \<open>
  The members of \<open>vcpu_t\<close>. A member \<open>name_\<close> of the source is the field \<open>name_m\<close> here.
  \<open>vmxon_revision_id\<close> and \<open>vmcs_revision_id\<close> are \<open>vmxon_.revision_id\<close> and
  \<open>vmcs_.revision_id\<close>; \<open>msr_bitmap_m\<close> is the set of bits set in the MSR bitmap.
  The member \<open>handler_\<close> is a reference to the exit handler; the handler is passed to every
  routine that calls it. \<open>ept_m = None\<close> is the null pointer. The queue indices are
  \<open>uint8_t\<close> in the source; they stay below 17, so they are natural numbers here.
\<close>

record vcpu_t =
  stack_m :: vcpu_stack_t
  guest_context_m :: context_t
  exit_context_m :: context_t
  vmxon_revision_id :: "32 word"
  vmcs_revision_id :: "32 word"
  msr_bitmap_m :: "nat set"
  fxsave_area_m :: fxsave_area_t
  state_m :: vcpu_state
  ept_m :: "ept_t list option"
  ept_count_m :: "16 word"
  ept_index_m :: "16 word"
  pending_interrupt_m :: "interrupt_t list"
  pending_interrupt_first_m :: nat
  pending_interrupt_count_m :: nat
  suppress_rip_adjust_m :: bool

section \<open>The logical processor\<close>

record dtr =
  base_address :: "64 word"
  limit :: "16 word"

text \<open>
  CR4 is a 64-bit register; \<open>cr4_t\<close> (ia32/arch.h, not among the sources) names its bits.
  The VMX-enable bit is bit 13 of the architecture.
\<close>

type_synonym cr4_t = "64 word"

definition vmx_enable :: "cr4_t \<Rightarrow> bool" where
  "vmx_enable x = bit x 13"

definition vmx_enable_clear :: "cr4_t \<Rightarrow> cr4_t" where
  "vmx_enable_clear x = unset_bit 13 x"

datatype segment = CS | DS | ES | FS | GS | SS | TR

datatype vmcs_field =
    Ctrl_virtual_processor_identifier
  | Ctrl_ept_pointer
  | Ctrl_msr_bitmap_address
  | Guest_vmcs_link_pointer
  | Guest_rsp | Guest_rip | Guest_rflags | Guest_cr3
  | Guest_gdtr_base | Guest_gdtr_limit | Guest_idtr_base | Guest_idtr_limit
  | Host_cr0 | Host_cr3 | Host_cr4 | Host_rsp | Host_rip
  | Host_gdtr_base | Host_idtr_base
  | Host_selector segment
  | Vmexit_instruction_error
  | Vmexit_instruction_length

datatype ctl_field = Pin_based | Processor_based | Processor_based2 | Vm_entry | Vm_exit

datatype ctl =
    Activate_secondary_controls | Use_msr_bitmaps
  | Enable_ept | Enable_vpid | Enable_rdtscp | Enable_xsaves | Enable_invpcid
  | Ia32e_mode_guest | Ia32e_mode_host

text \<open>What CPUID leaf 1, IA32_VMX_BASIC and IA32_VMX_EPT_VPID_CAP report.\<close>

record cpu_features =
  virtual_machine_extensions :: bool
  vmcs_size_in_bytes :: nat
  memory_type :: nat
  true_controls :: bool
  vmcs_revision :: "32 word"
  page_walk_length_4 :: bool
  memory_type_write_back :: bool
  invept :: bool
  invept_all_contexts :: bool
  execute_only_pages :: bool
  pde_2mb_pages :: bool

text \<open>Whether the processor will accept each of the four VMX instructions that can fail.\<close>

record vmx_answers =
  vmxon_ok :: bool
  vmclear_ok :: bool
  vmptrld_ok :: bool
  vmlaunch_ok :: bool

text \<open>
  The privileged instructions a routine executed and the stores to \<open>state_\<close>, in program
  order. The trace is a ghost field: no routine reads it.
\<close>

datatype event =
    Write_cr0 "64 word" | Write_cr3 "64 word" | Write_cr4 cr4_t
  | Write_gdtr dtr | Write_idtr dtr
  | Vmxon bool | Vmxoff | Vmclear bool | Vmptrld bool | Vmlaunch bool
  | Invvpid_all_contexts | Invept_all_contexts
  | Fx_save | Fx_restore | Int3 | Log_error "64 word"
  | Store_state vcpu_state

record cpu =
  cr0 :: "64 word"
  cr3 :: "64 word"
  cr4 :: cr4_t
  gdtr :: dtr
  idtr :: dtr
  selector :: "segment \<Rightarrow> 16 word"
  fx_registers :: fxsave_area_t
  vmx_root :: bool
  vmcs :: "vmcs_field \<Rightarrow> 64 word"
  vmcs_ctl :: "ctl_field \<Rightarrow> ctl set"
  features :: cpu_features
  answers :: vmx_answers
  trace :: "event list"

text \<open>A virtual CPU together with the logical processor that executes its routine.\<close>

type_synonym vp = "vcpu_t \<times> cpu"

text \<open>
  What the sources leave to other files: the CR0/CR4 adjustment of ia32/vmx.h, the addresses
  of the stack top and of the assembly entry points, the register values saved by
  \<open>context_t::capture\<close>, the extended page tables that \<open>new ept_t[count]\<close> constructs,
  what the memory past the end of that array holds (\<open>beyond_ept k\<close> is what \<open>ept_[k]\<close>
  reads there),
  whether assertions are compiled in, the index of the processor that calls
  \<open>hypervisor::start\<close> and \<open>stop\<close> (\<open>mp::cpu_index\<close>), and what \<open>operator new[]\<close> answers there:
  \<open>None\<close> is the null pointer, otherwise the raw storage of each array element.
\<close>

record platform =
  asserts_enabled :: bool
  adjust_cr0 :: "64 word \<Rightarrow> 64 word"
  adjust_cr4 :: "cr4_t \<Rightarrow> cr4_t"
  stack_end :: "64 word"
  entry_host_address :: "64 word"
  entry_guest_address :: "64 word"
  vmresume_address :: "64 word"
  captured_context :: context_t
  new_ept :: "nat \<Rightarrow> ept_t"
  beyond_ept :: "nat \<Rightarrow> ept_t"
  caller_cpu_index :: nat
  vcpu_storage :: "(nat \<Rightarrow> vcpu_t) option"

text \<open>
  The exit handler (\<open>vmexit_handler\<close>, declared in vmexit.h): three callbacks that receive
  the virtual CPU and may call any of its public methods.
\<close>

record vmexit_handler =
  handler_setup :: "vp \<Rightarrow> (unit, vp) flow"
  handler_handle :: "vp \<Rightarrow> (unit, vp) flow"
  handler_invoke_termination :: "vp \<Rightarrow> (unit, vp) flow"

section \<open>Processor primitives\<close>

definition exec :: "event \<Rightarrow> cpu \<Rightarrow> cpu" where
  "exec e c = c\<lparr>trace := trace c @ [e]\<rparr>"

definition write_cr0 :: "64 word \<Rightarrow> cpu \<Rightarrow> cpu" where
  "write_cr0 x c = exec (Write_cr0 x) (c\<lparr>cr0 := x\<rparr>)"

definition write_cr3 :: "64 word \<Rightarrow> cpu \<Rightarrow> cpu" where
  "write_cr3 x c = exec (Write_cr3 x) (c\<lparr>cr3 := x\<rparr>)"

definition write_cr4 :: "cr4_t \<Rightarrow> cpu \<Rightarrow> cpu" where
  "write_cr4 x c = exec (Write_cr4 x) (c\<lparr>cr4 := x\<rparr>)"

definition write_gdtr :: "dtr \<Rightarrow> cpu \<Rightarrow> cpu" where
  "write_gdtr x c = exec (Write_gdtr x) (c\<lparr>gdtr := x\<rparr>)"

definition write_idtr :: "dtr \<Rightarrow> cpu \<Rightarrow> cpu" where
  "write_idtr x c = exec (Write_idtr x) (c\<lparr>idtr := x\<rparr>)"

text \<open>\<open>vmx::on\<close>: the processor is in VMX root operation afterwards exactly when it succeeds.\<close>

definition vmx_on :: "cpu \<Rightarrow> cpu" where
  "vmx_on c =
     exec (Vmxon (vmxon_ok (answers c)))
       (if vmxon_ok (answers c) then c\<lparr>vmx_root := True\<rparr> else c)"

definition vmx_off :: "cpu \<Rightarrow> cpu" where
  "vmx_off c = exec Vmxoff (c\<lparr>vmx_root := False\<rparr>)"

definition invvpid_all_contexts :: "cpu \<Rightarrow> cpu" where
  "invvpid_all_contexts c = exec Invvpid_all_contexts c"

definition invept_all_contexts_insn :: "cpu \<Rightarrow> cpu" where
  "invept_all_contexts_insn c = exec Invept_all_contexts c"

definition ia32_asm_fx_save :: "vp \<Rightarrow> vp" where
  "ia32_asm_fx_save = (\<lambda>(v, c). (v\<lparr>fxsave_area_m := fx_registers c\<rparr>, exec Fx_save c))"

definition ia32_asm_fx_restore :: "vp \<Rightarrow> vp" where
  "ia32_asm_fx_restore = (\<lambda>(v, c). (v, exec Fx_restore (c\<lparr>fx_registers := fxsave_area_m v\<rparr>)))"

subsection \<open>VMCS accessors\<close>

text \<open>
  The accessors are defined in vcpu.inl, which is not among the sources; each one is a
  \<open>vmread\<close> or \<open>vmwrite\<close> of the field it is named after.
\<close>

definition vmwrite :: "vmcs_field \<Rightarrow> 64 word \<Rightarrow> cpu \<Rightarrow> cpu" where
  "vmwrite f x c = c\<lparr>vmcs := (vmcs c)(f := x)\<rparr>"

definition vmwrite_ctl :: "ctl_field \<Rightarrow> ctl set \<Rightarrow> cpu \<Rightarrow> cpu" where
  "vmwrite_ctl f x c = c\<lparr>vmcs_ctl := (vmcs_ctl c)(f := x)\<rparr>"

definition guest_rsp :: "cpu \<Rightarrow> 64 word" where
  "guest_rsp c = vmcs c Guest_rsp"

definition guest_rip :: "cpu \<Rightarrow> 64 word" where
  "guest_rip c = vmcs c Guest_rip"

definition guest_rflags :: "cpu \<Rightarrow> 64 word" where
  "guest_rflags c = vmcs c Guest_rflags"

definition guest_cr3 :: "cpu \<Rightarrow> 64 word" where
  "guest_cr3 c = vmcs c Guest_cr3"

definition guest_gdtr :: "cpu \<Rightarrow> dtr" where
  "guest_gdtr c = \<lparr>base_address = vmcs c Guest_gdtr_base, limit = ucast (vmcs c Guest_gdtr_limit)\<rparr>"

definition guest_idtr :: "cpu \<Rightarrow> dtr" where
  "guest_idtr c = \<lparr>base_address = vmcs c Guest_idtr_base, limit = ucast (vmcs c Guest_idtr_limit)\<rparr>"

definition exit_instruction_length :: "cpu \<Rightarrow> 32 word" where
  "exit_instruction_length c = ucast (vmcs c Vmexit_instruction_length)"

definition exit_instruction_error :: "cpu \<Rightarrow> 64 word" where
  "exit_instruction_error c = vmcs c Vmexit_instruction_error"

section \<open>The virtual CPU (vcpu.cpp)\<close>

text \<open>The assignment \<open>state_ = st\<close>.\<close>

definition set_state :: "vcpu_state \<Rightarrow> vp \<Rightarrow> vp" where
  "set_state st = (\<lambda>(v, c). (v\<lparr>state_m := st\<rparr>, exec (Store_state st) c))"

text \<open>
  The constructor runs on raw storage (placement new in \<open>hypervisor::start\<close>): the members
  it does not initialise keep what the storage held. \<open>memset\<close> fills the stack with 0xcc.
\<close>

definition vcpu_t_ctor :: "vcpu_t \<Rightarrow> vcpu_t" where
  "vcpu_t_ctor raw =
     raw\<lparr>vmxon_revision_id := 0,
         vmcs_revision_id := 0,
         state_m := off,
         ept_m := None,
         ept_count_m := 0,
         ept_index_m := 0,
         pending_interrupt_m := replicate pending_interrupt_queue_size interrupt_t_default,
         pending_interrupt_first_m := 0,
         pending_interrupt_count_m := 0,
         suppress_rip_adjust_m := False,
         stack_m := \<lparr>machine_frame_rip = 0xcccccccccccccccc, machine_frame_rsp = 0xcccccccccccccccc\<rparr>,
         guest_context_m := context_clear,
         exit_context_m := context_clear\<rparr>"

definition terminate :: "platform \<Rightarrow> vp \<Rightarrow> (unit, vp) flow" where
  "terminate p = (\<lambda>(v, c).
     then_do (hvpp_assert (asserts_enabled p) (state_m v \<noteq> off \<and> state_m v \<noteq> terminated) (v, c))
       (\<lambda>(v, c).
          let v1 = v\<lparr>exit_context_m := (exit_context_m v)
                       \<lparr>rip := rip (exit_context_m v) + ucast (exit_instruction_length c)\<rparr>\<rparr>;
              c1 = write_gdtr (guest_gdtr c) c;
              c2 = write_idtr (guest_idtr c1) c1;
              c3 = write_cr3 (guest_cr3 c2) c2;
              c4 = invvpid_all_contexts c3;
              c5 = invept_all_contexts_insn c4;
              c6 = vmx_off c5;
              c7 = write_cr4 (vmx_enable_clear (cr4 c6)) c6
          in Done (set_state terminated (v1, c7))))"

text \<open>\<open>ept_pointer(ept_ptr_t)\<close>, the private setter of the active EPT pointer.\<close>

definition ept_pointer_set :: "64 word \<Rightarrow> cpu \<Rightarrow> cpu" where
  "ept_pointer_set x c = vmwrite Ctrl_ept_pointer x c"

text \<open>
  \<open>ept_[index]\<close> as the code reads it: through a null pointer the read traps; past the
  end of the array it yields whatever the memory there holds and the routine goes on.
\<close>

definition ept_at :: "platform \<Rightarrow> vcpu_t \<Rightarrow> 16 word \<Rightarrow> ept_t option" where
  "ept_at p v index =
     (case ept_m v of
        None \<Rightarrow> None
      | Some es \<Rightarrow> Some (if unat index < length es then es ! unat index
                         else beyond_ept p (unat index)))"

text \<open>\<open>ept_index(uint16_t)\<close>.\<close>

definition ept_index :: "platform \<Rightarrow> 16 word \<Rightarrow> vp \<Rightarrow> (unit, vp) flow" where
  "ept_index p index = (\<lambda>(v, c).
     then_do (hvpp_assert (asserts_enabled p) (index < ept_count_m v) (v, c))
       (\<lambda>(v, c).
          case ept_at p v index of
            None \<Rightarrow> Faulted Undefined_behaviour (v, c)
          | Some e \<Rightarrow> Done (v\<lparr>ept_index_m := index\<rparr>, ept_pointer_set (ept_pointer e) c)))"

text \<open>\<open>ept(uint16_t)\<close> returns a reference to the instance.\<close>

definition ept :: "platform \<Rightarrow> 16 word \<Rightarrow> vp \<Rightarrow> (ept_t, vp) flow" where
  "ept p index = (\<lambda>(v, c).
     then_do (hvpp_assert (asserts_enabled p) (index < ept_count_m v) (v, c))
       (\<lambda>(v, c).
          case ept_at p v index of
            None \<Rightarrow> Faulted Undefined_behaviour (v, c)
          | Some e \<Rightarrow> Returned e (v, c)))"

definition ept_enable :: "platform \<Rightarrow> 16 word \<Rightarrow> vp \<Rightarrow> (unit, vp) flow" where
  "ept_enable p count = (\<lambda>(v, c).
     then_do (hvpp_assert (asserts_enabled p) (ept_m v = None \<and> count > 0) (v, c))
       (\<lambda>(v, c).
          let v1 = v\<lparr>ept_m := Some (map (new_ept p) [0..<unat count]), ept_count_m := count\<rparr>;
              procbased_ctls2 = vmcs_ctl c Processor_based2;
              c1 = vmwrite_ctl Processor_based2 (insert Enable_ept procbased_ctls2) c
          in ept_index p 0 (v1, c1)))"

definition ept_disable :: "vcpu_t \<Rightarrow> vcpu_t" where
  "ept_disable v = (if ept_m v = None then v else v\<lparr>ept_m := None\<rparr>)"

definition suppress_rip_adjust :: "vcpu_t \<Rightarrow> vcpu_t" where
  "suppress_rip_adjust v = v\<lparr>suppress_rip_adjust_m := True\<rparr>"

definition error :: "platform \<Rightarrow> vp \<Rightarrow> (unit, vp) flow" where
  "error p = (\<lambda>(v, c).
     let instruction_error = exit_instruction_error c;
         c1 = exec (Log_error instruction_error) c;
         c2 = exec Int3 c1
     in terminate p (v, c2))"

definition load_vmxon :: "platform \<Rightarrow> vp \<Rightarrow> (unit, vp) flow" where
  "load_vmxon p = (\<lambda>(v, c).
     let c1 = write_cr0 (adjust_cr0 p (cr0 c)) c;
         c2 = write_cr4 (adjust_cr4 p (cr4 c1)) c1;
         v1 = v\<lparr>vmxon_revision_id := vmcs_revision (features c2)\<rparr>;
         c3 = vmx_on c2
     in if vmxon_ok (answers c2)
        then (case set_state initializing (v1, c3) of
                (v2, c4) \<Rightarrow> Done (v2, invept_all_contexts_insn (invvpid_all_contexts c4)))
        else error p (set_state terminated (v1, c3)))"

definition load_vmcs :: "platform \<Rightarrow> vp \<Rightarrow> (unit, vp) flow" where
  "load_vmcs p = (\<lambda>(v, c).
     then_do (hvpp_assert (asserts_enabled p) (state_m v = initializing) (v, c))
       (\<lambda>(v, c).
          let v1 = v\<lparr>vmcs_revision_id := vmcs_revision (features c)\<rparr>;
              c1 = exec (Vmclear (vmclear_ok (answers c))) c
          in if vmclear_ok (answers c)
             then (let c2 = exec (Vmptrld (vmptrld_ok (answers c))) c1
                   in if vmptrld_ok (answers c) then Done (v1, c2) else error p (v1, c2))
             else error p (v1, c1)))"

text \<open>
  \<open>setup_host\<close> mirrors the current processor state into the host fields. The host segment
  setters of vcpu.inl are embedded as the write of the selector.
\<close>

definition host_segment :: "segment \<Rightarrow> cpu \<Rightarrow> cpu" where
  "host_segment sg c = vmwrite (Host_selector sg) (ucast (selector c sg)) c"

definition setup_host :: "platform \<Rightarrow> vp \<Rightarrow> vp" where
  "setup_host p = (\<lambda>(v, c).
     let gdtr_now = gdtr c;
         c1 = vmwrite Host_gdtr_base (base_address gdtr_now) c;
         c2 = vmwrite Host_idtr_base (base_address (idtr c1)) c1;
         c3 = fold host_segment [CS, DS, ES, FS, GS, SS, TR] c2;
         c4 = vmwrite Host_cr0 (cr0 c3) c3;
         c5 = vmwrite Host_cr3 (cr3 c4) c4;
         c6 = vmwrite Host_cr4 (cr4 c5) c5;
         c7 = vmwrite Host_rsp (stack_end p) c6;
         c8 = vmwrite Host_rip (entry_host_address p) c7
     in (v, c8))"

definition setup_guest :: "platform \<Rightarrow> vp \<Rightarrow> vp" where
  "setup_guest p = (\<lambda>(v, c).
     let c1 = vmwrite Ctrl_virtual_processor_identifier 1 c;
         c2 = vmwrite Guest_vmcs_link_pointer (- 1) c1;
         c3 = vmwrite_ctl Pin_based {} c2;
         c4 = vmwrite_ctl Processor_based {Activate_secondary_controls, Use_msr_bitmaps} c3;
         c5 = vmwrite_ctl Processor_based2 {Enable_vpid, Enable_rdtscp, Enable_xsaves, Enable_invpcid} c4;
         c6 = vmwrite_ctl Vm_entry {Ia32e_mode_guest} c5;
         c7 = vmwrite_ctl Vm_exit {Ia32e_mode_host} c6;
         v1 = v\<lparr>msr_bitmap_m := {}\<rparr>;
         c8 = vmwrite Guest_rsp (stack_end p) c7;
         c9 = vmwrite Guest_rip (entry_guest_address p) c8
     in (v1, c9))"

text \<open>
  \<open>vcpu_t::setup\<close> (\<open>vcpu_setup\<close> here): when \<open>vmlaunch\<close> succeeds the processor continues in the guest and the call does
  not come back; when it fails the next statement, \<open>error()\<close>, runs.
\<close>

definition vmlaunch :: "platform \<Rightarrow> vp \<Rightarrow> (unit, vp) flow" where
  "vmlaunch p = (\<lambda>(v, c).
     let c1 = exec (Vmlaunch (vmlaunch_ok (answers c))) c
     in if vmlaunch_ok (answers c) then Vm_entered (v, c1) else Done (v, c1))"

definition vcpu_setup :: "platform \<Rightarrow> vmexit_handler \<Rightarrow> vp \<Rightarrow> (unit, vp) flow" where
  "vcpu_setup p h vp0 =
     then_do (load_vmxon p vp0) (\<lambda>vp1.
     then_do (load_vmcs p vp1) (\<lambda>vp2.
     then_do (handler_setup h (setup_guest p (setup_host p vp2))) (\<lambda>vp3.
     then_do (vmlaunch p vp3) (\<lambda>vp4.
       error p vp4))))"

definition entry_guest :: "vp \<Rightarrow> vp" where
  "entry_guest = (\<lambda>(v, c).
     (v\<lparr>guest_context_m := (guest_context_m v)\<lparr>rax := vcpu_state_to_word launching\<rparr>\<rparr>, c))"

text \<open>The \<open>switch\<close> of \<open>launch\<close> on the value that \<open>guest_context_.capture()\<close> returned.\<close>

definition launch_switch :: "platform \<Rightarrow> vmexit_handler \<Rightarrow> 64 word \<Rightarrow> vp \<Rightarrow> (unit, vp) flow" where
  "launch_switch p h captured vp =
     (case vcpu_state_of_word captured of
        Some off \<Rightarrow> vcpu_setup p h vp
      | Some launching \<Rightarrow> Done (set_state running vp)
      | _ \<Rightarrow> hvpp_assert (asserts_enabled p) False vp)"

text \<open>
  Modelled from the spec: \<open>context_t::capture\<close>, \<open>context_t::restore\<close> and the guest-entry
  trampoline \<open>entry_guest_\<close> are assembly (vcpu.asm) that is not among the sources.
  \<open>capture\<close> saves the registers of the caller and returns 0 to it. The trampoline, which
  the guest reaches when its instruction pointer is the one \<open>setup_guest\<close> wrote, calls
  \<open>entry_guest\<close> and restores the guest context, so that \<open>capture\<close> returns a second time,
  now with the value of \<open>rax\<close> in that context.
\<close>

definition capture :: "platform \<Rightarrow> vp \<Rightarrow> vp" where
  "capture p = (\<lambda>(v, c). (v\<lparr>guest_context_m := captured_context p\<rparr>, c))"

definition launch :: "platform \<Rightarrow> vmexit_handler \<Rightarrow> vp \<Rightarrow> (unit, vp) flow" where
  "launch p h vp =
     (case launch_switch p h 0 (capture p vp) of
        Vm_entered (v1, c1) \<Rightarrow>
          if guest_rip c1 = entry_guest_address p
          then (case entry_guest (v1, c1) of
                  (v2, c2) \<Rightarrow> launch_switch p h (rax (guest_context_m v2)) (v2, c2))
          else Vm_entered (v1, c1)
      | r \<Rightarrow> r)"

text \<open>
  \<open>entry_host\<close>, the exit dispatch. \<open>entry_host_before_handler\<close> is the routine up to the
  call of the handler, \<open>entry_host_after_handler\<close> what follows the call; the label
  \<open>exit\<close> is the final \<open>ia32_asm_fx_restore\<close>. The scoped \<open>mm::allocator_guard\<close> (lib/mm.h,
  not among the sources) only switches the system allocator off and on again; it touches
  nothing of the state embedded here, in this routine and in the closures of
  \<open>hypervisor::start\<close> and \<open>stop\<close>.
\<close>

definition entry_host_before_handler :: "vp \<Rightarrow> vp" where
  "entry_host_before_handler vp =
     (case ia32_asm_fx_save (fst vp\<lparr>suppress_rip_adjust_m := False\<rparr>, snd vp) of
        (v, c) \<Rightarrow>
          let x1 = (exit_context_m v)\<lparr>rsp := guest_rsp c, rip := guest_rip c, rflags := guest_rflags c\<rparr>;
              st = (stack_m v)\<lparr>machine_frame_rip := rip x1 + ucast (exit_instruction_length c),
                               machine_frame_rsp := rsp x1\<rparr>
          in (v\<lparr>exit_context_m := x1, stack_m := st\<rparr>, c))"

definition entry_host_after_handler :: "platform \<Rightarrow> 64 word \<Rightarrow> 64 word \<Rightarrow> vp \<Rightarrow> vp" where
  "entry_host_after_handler p captured_rsp captured_rflags = (\<lambda>(v, c).
     if state_m v = terminated then ia32_asm_fx_restore (v, c)
     else
       let x1 = (if \<not> suppress_rip_adjust_m v
                 then (exit_context_m v)\<lparr>rip := rip (exit_context_m v) + ucast (exit_instruction_length c)\<rparr>
                 else exit_context_m v);
           c1 = vmwrite Guest_rsp (rsp x1) c;
           c2 = vmwrite Guest_rip (rip x1) c1;
           c3 = vmwrite Guest_rflags (rflags x1) c2;
           x2 = x1\<lparr>rflags := captured_rflags, rsp := captured_rsp, rip := vmresume_address p\<rparr>
       in ia32_asm_fx_restore (v\<lparr>exit_context_m := x2\<rparr>, c3))"

definition entry_host :: "platform \<Rightarrow> vmexit_handler \<Rightarrow> vp \<Rightarrow> (unit, vp) flow" where
  "entry_host p h vp =
     (let captured_rsp = rsp (exit_context_m (fst vp));
          captured_rflags = rflags (exit_context_m (fst vp))
      in then_do (handler_handle h (entry_host_before_handler vp))
           (\<lambda>vp1. Done (entry_host_after_handler p captured_rsp captured_rflags vp1)))"

text \<open>The destructor \<open>~vcpu_t\<close>.\<close>

definition vcpu_t_dtor :: "vmexit_handler \<Rightarrow> vp \<Rightarrow> (unit, vp) flow" where
  "vcpu_t_dtor h vp =
     then_do (handler_invoke_termination h (set_state terminating vp))
       (\<lambda>(v, c). Done (ept_disable v, c))"

section \<open>The pending-interrupt queue\<close>

text \<open>
  Modelled from the spec: \<open>interrupt_inject\<close> and \<open>interrupt_inject_pending\<close> are defined in
  vcpu.inl, which is not among the sources; vcpu.h declares their storage (16 slots, the
  index of the first entry, the count). The spec: a fixed-capacity (16) FIFO with head
  index and count; \<open>interrupt_inject\<close> fails (returns false) if the queue is full, otherwise
  enqueues at tail, or at head if \<open>front\<close> is true, and never overwrites existing entries;
  \<open>interrupt_inject_pending\<close> dequeues the head descriptor. \<open>interrupt_dequeue\<close> is that
  dequeue step; \<open>None\<close> is the empty queue.
\<close>

definition interrupt_inject :: "interrupt_t \<Rightarrow> bool \<Rightarrow> vcpu_t \<Rightarrow> bool \<times> vcpu_t" where
  "interrupt_inject interrupt front v =
     (if pending_interrupt_count_m v \<ge> pending_interrupt_queue_size then (False, v)
      else if front then
        (let f = (pending_interrupt_first_m v + pending_interrupt_queue_size - 1)
                   mod pending_interrupt_queue_size
         in (True, v\<lparr>pending_interrupt_m := (pending_interrupt_m v)[f := interrupt],
                      pending_interrupt_first_m := f,
                      pending_interrupt_count_m := pending_interrupt_count_m v + 1\<rparr>))
      else
        (let t = (pending_interrupt_first_m v + pending_interrupt_count_m v)
                   mod pending_interrupt_queue_size
         in (True, v\<lparr>pending_interrupt_m := (pending_interrupt_m v)[t := interrupt],
                      pending_interrupt_count_m := pending_interrupt_count_m v + 1\<rparr>)))"

definition interrupt_dequeue :: "vcpu_t \<Rightarrow> (interrupt_t \<times> vcpu_t) option" where
  "interrupt_dequeue v =
     (if pending_interrupt_count_m v = 0 then None
      else Some (pending_interrupt_m v ! pending_interrupt_first_m v,
                 v\<lparr>pending_interrupt_first_m :=
                      (pending_interrupt_first_m v + 1) mod pending_interrupt_queue_size,
                    pending_interrupt_count_m := pending_interrupt_count_m v - 1\<rparr>))"

text \<open>The queued descriptors in the order in which they will be dequeued.\<close>

definition pending_interrupts :: "vcpu_t \<Rightarrow> interrupt_t list" where
  "pending_interrupts v =
     map (\<lambda>k. pending_interrupt_m v ! ((pending_interrupt_first_m v + k) mod pending_interrupt_queue_size))
       [0..<pending_interrupt_count_m v]"

text \<open>The representation invariant of the queue: what the constructor establishes.\<close>

definition queue_inv :: "vcpu_t \<Rightarrow> bool" where
  "queue_inv v =
     (length (pending_interrupt_m v) = pending_interrupt_queue_size \<and>
      pending_interrupt_first_m v < pending_interrupt_queue_size \<and>
      pending_interrupt_count_m v \<le> pending_interrupt_queue_size)"

text \<open>Dequeue until the queue is empty; at most \<open>n\<close> times.\<close>

fun drain :: "nat \<Rightarrow> vcpu_t \<Rightarrow> interrupt_t list" where
  "drain 0 v = []"
| "drain (Suc n) v = (case interrupt_dequeue v of None \<Rightarrow> [] | Some (x, v') \<Rightarrow> x # drain n v')"

section \<open>The orchestrator (hypervisor.cpp)\<close>

datatype errc =
    success | operation_not_permitted | not_enough_memory | not_supported
  | invalid_argument | bad_address

text \<open>
  \<open>page_size\<close> and \<open>memory_type::write_back\<close> come from headers that are not among the
  sources: the native page is 4096 bytes and the write-back memory type is 6.
\<close>

definition page_size :: nat where
  "page_size = 4096"

definition write_back :: nat where
  "write_back = 6"

definition check_cpu_features :: "cpu \<Rightarrow> bool" where
  "check_cpu_features c =
     (if \<not> virtual_machine_extensions (features c) then False
      else if vmx_enable (cr4 c) then False
      else if vmcs_size_in_bytes (features c) > page_size \<or>
              memory_type (features c) \<noteq> write_back \<or>
              \<not> true_controls (features c) then False
      else if \<not> page_walk_length_4 (features c) \<or>
              \<not> memory_type_write_back (features c) \<or>
              \<not> invept (features c) \<or>
              \<not> invept_all_contexts (features c) \<or>
              \<not> execute_only_pages (features c) \<or>
              \<not> pde_2mb_pages (features c) then False
      else True)"

record global_t =
  vcpu_list :: "vcpu_t list option"
  started :: bool

text \<open>\<open>global\<close> has static storage: it starts zero-initialised.\<close>

definition global_init :: global_t where
  "global_init = \<lparr>vcpu_list = None, started = False\<rparr>"

text \<open>The logical processors and the orchestrator's global.\<close>

record machine =
  cpus :: "cpu list"
  global :: global_t

text \<open>
  \<open>global.vcpu_list[idx].f()\<close> executed by processor \<open>idx\<close>. Indexing a null
  \<open>vcpu_list\<close>, or past its end, is undefined behaviour.
\<close>

definition on_cpu :: "(vp \<Rightarrow> (unit, vp) flow) \<Rightarrow> nat \<Rightarrow> machine \<Rightarrow> (unit, machine) flow" where
  "on_cpu f idx m =
     (case vcpu_list (global m) of
        None \<Rightarrow> Faulted Undefined_behaviour m
      | Some vs \<Rightarrow>
          if idx < length vs \<and> idx < length (cpus m)
          then (let put = (\<lambda>(v, c). m\<lparr>cpus := (cpus m)[idx := c],
                                       global := (global m)\<lparr>vcpu_list := Some (vs[idx := v])\<rparr>\<rparr>)
                in case f (vs ! idx, cpus m ! idx) of
                     Returned r vp1 \<Rightarrow> Done (put vp1)
                   | Faulted e vp1 \<Rightarrow> Faulted e (put vp1)
                   | Vm_entered vp1 \<Rightarrow> Vm_entered (put vp1))
          else Faulted Undefined_behaviour m)"

text \<open>
  \<open>mp::ipi_call\<close> (lib/mp.h, not among the sources) runs the closure on every logical
  processor and returns when all of them are done; the processors do not interact, so
  they are taken in the order of their indices.
\<close>

fun ipi_call :: "(nat \<Rightarrow> machine \<Rightarrow> (unit, machine) flow) \<Rightarrow> nat list \<Rightarrow> machine \<Rightarrow> (unit, machine) flow" where
  "ipi_call f [] m = Done m"
| "ipi_call f (idx # rest) m = then_do (f idx m) (ipi_call f rest)"

text \<open>
  \<open>start_body\<close> is \<open>start\<close> from the construction of the array on: \<open>raw\<close> is the storage
  that \<open>operator new[]\<close> returned.
\<close>

definition start_body ::
  "platform \<Rightarrow> vmexit_handler \<Rightarrow> (nat \<Rightarrow> vcpu_t) \<Rightarrow> machine \<Rightarrow> (errc, machine) flow" where
  "start_body p h raw m =
     (let vs = map (\<lambda>i. vcpu_t_ctor (raw i)) [0..<length (cpus m)];
          m1 = m\<lparr>global := (global m)\<lparr>vcpu_list := Some vs\<rparr>\<rparr>
      in if \<not> caller_cpu_index p < length (cpus m1) then Faulted Undefined_behaviour m1
         else if \<not> check_cpu_features (cpus m1 ! caller_cpu_index p) then Returned not_supported m1
         else then_do (ipi_call (on_cpu (launch p h)) [0..<length (cpus m1)] m1) (\<lambda>m2.
                Returned success (m2\<lparr>global := (global m2)\<lparr>started := True\<rparr>\<rparr>)))"

definition start :: "platform \<Rightarrow> vmexit_handler \<Rightarrow> machine \<Rightarrow> (errc, machine) flow" where
  "start p h m0 =
     then_do (hvpp_assert (asserts_enabled p) (\<not> started (global m0)) m0) (\<lambda>m.
       if started (global m) then Returned operation_not_permitted m
       else
         then_do (hvpp_assert (asserts_enabled p) (vcpu_list (global m) = None) m) (\<lambda>m.
           case vcpu_storage p of
             None \<Rightarrow> Returned not_enough_memory (m\<lparr>global := (global m)\<lparr>vcpu_list := None\<rparr>\<rparr>)
           | Some raw \<Rightarrow> start_body p h raw m))"



definition is_started :: "machine \<Rightarrow> bool" where
  "is_started m = started (global m)"



section \<open>The device front end (lib/win32/device.cpp)\<close>

definition MAX_BUFFER_SIZE :: nat where
  "MAX_BUFFER_SIZE = 64"

record device_impl =
  DeviceObject :: "nat option"
  DeviceLink :: string

record device =
  name :: string
  impl_m :: "device_impl option"

datatype kernel_call =
    ExAllocatePoolWithTag
  | IoCreateDevice string
  | IoCreateSymbolicLink string string
  | IoDeleteDevice nat
  | ExFreePoolWithTag

text \<open>
  What the kernel answers: whether the pool allocation succeeds, what the fresh pool block
  holds in the slot of \<open>DeviceObject\<close> (the block is not zeroed), the device object that
  \<open>IoCreateDevice\<close> creates (\<open>None\<close> when it fails) and whether \<open>IoCreateSymbolicLink\<close>
  succeeds.
\<close>

record kernel_answers =
  pool_available :: bool
  pool_garbage :: "nat option"
  io_create_device :: "nat option"
  io_create_symbolic_link_ok :: bool

definition backslash :: char where
  "backslash = CHR 0x5C"

definition device_prefix :: string where
  "device_prefix = backslash # ''Device'' @ [backslash]"

definition dos_devices_prefix :: string where
  "dos_devices_prefix = backslash # ''DosDevices'' @ [backslash]"

text \<open>
  The label \<open>Error\<close> of \<open>device::create\<close>: delete the device object if the slot is not
  null, free the block, return \<open>err\<close>.
\<close>

definition create_error_path ::
  "errc \<Rightarrow> nat option \<Rightarrow> device \<times> kernel_call list \<Rightarrow> (errc, device \<times> kernel_call list) flow" where
  "create_error_path err device_object = (\<lambda>(d, ks).
     Returned err
       (d, ks @ (case device_object of None \<Rightarrow> [] | Some x \<Rightarrow> [IoDeleteDevice x]) @ [ExFreePoolWithTag]))"

text \<open>
  \<open>device::create\<close>. The state is the device and the kernel calls made so far. After the
  guard the name has fewer than 64 characters, so every string fits its buffer and the
  \<open>Rtl\<close> string routines are plain concatenations. When the allocation fails the label
  \<open>Error\<close> reads \<open>DeviceImpl->DeviceObject\<close> through the null pointer.
\<close>

definition create ::
  "kernel_answers \<Rightarrow> device \<times> kernel_call list \<Rightarrow> (errc, device \<times> kernel_call list) flow" where
  "create k = (\<lambda>(d, ks).
     let name_length = length (name d)
     in if name_length \<ge> MAX_BUFFER_SIZE then Returned invalid_argument (d, ks)
        else
          let ks1 = ks @ [ExAllocatePoolWithTag]
          in if \<not> pool_available k then Faulted Undefined_behaviour (d, ks1)
             else
               let device_name = device_prefix @ name d;
                   device_link = dos_devices_prefix @ name d;
                   ks2 = ks1 @ [IoCreateDevice device_name]
               in case io_create_device k of
                    None \<Rightarrow> create_error_path not_enough_memory (pool_garbage k) (d, ks2)
                  | Some device_object \<Rightarrow>
                      let ks3 = ks2 @ [IoCreateSymbolicLink device_link device_name]
                      in if \<not> io_create_symbolic_link_ok k
                         then create_error_path not_enough_memory (Some device_object) (d, ks3)
                         else Returned success
                                (d\<lparr>impl_m := Some \<lparr>DeviceObject = Some device_object,
                                                    DeviceLink = device_link\<rparr>\<rparr>, ks3))"

section \<open>Concrete inputs\<close>

text \<open>The state in which a routine stands when it returns, faults or leaves for the guest.\<close>

fun flow_state :: "('r, 's) flow \<Rightarrow> 's" where
  "flow_state (Returned r s) = s"
| "flow_state (Faulted e s) = s"
| "flow_state (Vm_entered s) = s"

text \<open>Whether a routine came back to its caller, and whether it left for the guest.\<close>

fun has_returned :: "('r, 's) flow \<Rightarrow> bool" where
  "has_returned (Returned r s) = True"
| "has_returned (Faulted e s) = False"
| "has_returned (Vm_entered s) = False"

fun has_entered_guest :: "('r, 's) flow \<Rightarrow> bool" where
  "has_entered_guest (Vm_entered s) = True"
| "has_entered_guest (Returned r s) = False"
| "has_entered_guest (Faulted e s) = False"

text \<open>The stores to \<open>state_\<close> among the events of a trace.\<close>

fun state_stores :: "event list \<Rightarrow> vcpu_state list" where
  "state_stores [] = []"
| "state_stores (Store_state st # es) = st # state_stores es"
| "state_stores (e # es) = state_stores es"





text \<open>
  A setup callback that returns and leaves alone the lifecycle state, the stores to it, the
  guest instruction pointer and the answers of the processor.
\<close>

definition setup_passive :: "vmexit_handler \<Rightarrow> bool" where
  "setup_passive h =
     (\<forall>v c. \<exists>v' c'. handler_setup h (v, c) = Done (v', c') \<and>
        state_m v' = state_m v \<and>
        state_stores (trace c') = state_stores (trace c) \<and>
        guest_rip c' = guest_rip c \<and>
        answers c' = answers c)"

text \<open>
  A processor that supports everything the hypervisor asks for and accepts every VMX
  instruction, raw storage for a virtual CPU, a platform and a handler whose callbacks do
  nothing.
\<close>

definition example_features :: cpu_features where
  "example_features =
     \<lparr>virtual_machine_extensions = True, vmcs_size_in_bytes = 1024, memory_type = 6,
      true_controls = True, vmcs_revision = 4, page_walk_length_4 = True,
      memory_type_write_back = True, invept = True, invept_all_contexts = True,
      execute_only_pages = True, pde_2mb_pages = True\<rparr>"

definition example_cpu :: cpu where
  "example_cpu =
     \<lparr>cr0 = 0x80050033, cr3 = 0x1ad000, cr4 = 0x20,
      gdtr = \<lparr>base_address = 0x7000, limit = 0x57\<rparr>,
      idtr = \<lparr>base_address = 0x8000, limit = 0xfff\<rparr>,
      selector = (\<lambda>sg. 0x10),
      fx_registers = [1, 2, 3],
      vmx_root = False,
      vmcs = (\<lambda>f. 0)(Guest_rip := 0x1000, Guest_rsp := 0x7000, Guest_rflags := 2,
                       Guest_cr3 := 0x2000, Vmexit_instruction_length := 3),
      vmcs_ctl = (\<lambda>f. {}),
      features = example_features,
      answers = \<lparr>vmxon_ok = True, vmclear_ok = True, vmptrld_ok = True, vmlaunch_ok = True\<rparr>,
      trace = []\<rparr>"

definition example_raw :: vcpu_t where
  "example_raw =
     \<lparr>stack_m = \<lparr>machine_frame_rip = 0, machine_frame_rsp = 0\<rparr>,
      guest_context_m = context_clear,
      exit_context_m = context_clear,
      vmxon_revision_id = 0,
      vmcs_revision_id = 0,
      msr_bitmap_m = {},
      fxsave_area_m = [],
      state_m = terminated,
      ept_m = None,
      ept_count_m = 7,
      ept_index_m = 9,
      pending_interrupt_m = [],
      pending_interrupt_first_m = 3,
      pending_interrupt_count_m = 200,
      suppress_rip_adjust_m = True\<rparr>"

definition example_platform :: platform where
  "example_platform =
     \<lparr>asserts_enabled = True,
      adjust_cr0 = (\<lambda>x. x),
      adjust_cr4 = (\<lambda>x. set_bit 13 x),
      stack_end = 0x9000,
      entry_host_address = 0x401000,
      entry_guest_address = 0x402000,
      vmresume_address = 0x403000,
      captured_context = \<lparr>rax = 0, rsp = 0x5000, rip = 0x400100, rflags = 2\<rparr>,
      new_ept = (\<lambda>k. \<lparr>ept_pointer = 0x10000 + 0x1000 * of_nat k\<rparr>),
      beyond_ept = (\<lambda>k. \<lparr>ept_pointer = 0xdead000\<rparr>),
      caller_cpu_index = 0,
      vcpu_storage = Some (\<lambda>i. example_raw)\<rparr>"

definition example_handler :: vmexit_handler where
  "example_handler =
     \<lparr>handler_setup = (\<lambda>vp. Done vp),
      handler_handle = (\<lambda>vp. Done vp),
      handler_invoke_termination = (\<lambda>vp. Done vp)\<rparr>"

definition example_vcpu :: vcpu_t where
  "example_vcpu = vcpu_t_ctor example_raw"

text \<open>
  The virtual CPU with two translation contexts, a machine with the one processor, a
  processor without the virtualization extensions, a kernel that grants every request, a
  device whose name has 64 characters, and a handler whose exit callback asks for
  termination.
\<close>

definition example_ept_vcpu :: vcpu_t where
  "example_ept_vcpu =
     example_vcpu\<lparr>ept_m := Some [\<lparr>ept_pointer = 0x10000\<rparr>, \<lparr>ept_pointer = 0x11000\<rparr>],
                  ept_count_m := 2\<rparr>"


definition example_unsupported_cpu :: cpu where
  "example_unsupported_cpu =
     example_cpu\<lparr>features := example_features\<lparr>virtual_machine_extensions := False\<rparr>\<rparr>"

definition example_kernel :: kernel_answers where
  "example_kernel =
     \<lparr>pool_available = True, pool_garbage = None, io_create_device = Some 1,
      io_create_symbolic_link_ok = True\<rparr>"

definition example_device :: device where
  "example_device = \<lparr>name = replicate 64 (CHR ''a''), impl_m = None\<rparr>"

definition example_terminating_handler :: vmexit_handler where
  "example_terminating_handler =
     example_handler\<lparr>handler_handle := terminate example_platform\<rparr>"

text \<open>
  A processor that refuses \<open>vmlaunch\<close>, a running virtual CPU, and interrupt descriptors
  told apart by their vector.
\<close>

definition example_refusing_cpu :: cpu where
  "example_refusing_cpu =
     example_cpu\<lparr>answers := \<lparr>vmxon_ok = True, vmclear_ok = True, vmptrld_ok = True,
                               vmlaunch_ok = False\<rparr>\<rparr>"

definition example_running_vcpu :: vcpu_t where
  "example_running_vcpu = example_vcpu\<lparr>state_m := running\<rparr>"

definition example_interrupt :: "nat \<Rightarrow> interrupt_t" where
  "example_interrupt k = interrupt_t_default\<lparr>vector := of_nat k, valid := True\<rparr>"

section \<open>Shared lemmas\<close>

lemma then_do_hvpp_assert:
  "then_do (hvpp_assert a cond s) f = (if a \<and> \<not> cond then Faulted Assertion_failed s else f s)"
  by (simp add: hvpp_assert_def)

lemma then_do_Returned:
  "then_do x f = Returned r s' \<Longrightarrow> \<exists>r0 s0. x = Returned r0 s0 \<and> f s0 = Returned r s'"
  by (cases x) simp_all

lemmas cpu_insn_defs =
  exec_def write_cr0_def write_cr3_def write_cr4_def write_gdtr_def write_idtr_def
  vmx_on_def vmx_off_def invvpid_all_contexts_def invept_all_contexts_insn_def

lemma state_stores_append: "state_stores (xs @ ys) = state_stores xs @ state_stores ys"
  by (induction xs rule: state_stores.induct) simp_all

lemma vmx_enable_clear_off: "\<not> vmx_enable (vmx_enable_clear x)"
  by (simp add: vmx_enable_def vmx_enable_clear_def bit_unset_bit_iff)

lemma terminate_legal:
  assumes "state_m v \<noteq> off" "state_m v \<noteq> terminated"
  shows "terminate p (v, c) =
     Done (v\<lparr>exit_context_m := (exit_context_m v)
                \<lparr>rip := rip (exit_context_m v) + ucast (exit_instruction_length c)\<rparr>,
             state_m := terminated\<rparr>,
           c\<lparr>gdtr := guest_gdtr c, idtr := guest_idtr c, cr3 := guest_cr3 c,
             vmx_root := False, cr4 := vmx_enable_clear (cr4 c),
             trace := trace c @
               [Write_gdtr (guest_gdtr c), Write_idtr (guest_idtr c), Write_cr3 (guest_cr3 c),
                Invvpid_all_contexts, Invept_all_contexts, Vmxoff,
                Write_cr4 (vmx_enable_clear (cr4 c)), Store_state terminated]\<rparr>)"
  using assms
  by (simp add: terminate_def then_do_hvpp_assert Let_def set_state_def cpu_insn_defs
      guest_gdtr_def guest_idtr_def guest_cr3_def)

lemma terminate_returned_state:
  "terminate p vp = Returned r vp' \<Longrightarrow> state_m (fst vp') = terminated"
  by (cases vp) (auto simp: terminate_def then_do_hvpp_assert Let_def set_state_def split: if_splits)

lemma error_returned_state:
  "error p vp = Returned r vp' \<Longrightarrow> state_m (fst vp') = terminated"
  by (cases vp) (auto simp: error_def Let_def dest: terminate_returned_state)

lemma vmlaunch_cases:
  "vmlaunch p (v, c) =
     (if vmlaunch_ok (answers c) then Vm_entered (v, exec (Vmlaunch True) c)
      else Done (v, exec (Vmlaunch False) c))"
  by (simp add: vmlaunch_def Let_def)

lemma vcpu_setup_returned_state:
  assumes "vcpu_setup p h vp = Returned r vp'"
  shows "state_m (fst vp') = terminated"
proof -
  from assms obtain vp4 where "error p vp4 = Returned r vp'"
    unfolding vcpu_setup_def by (blast dest: then_do_Returned)
  then show ?thesis by (rule error_returned_state)
qed

lemma vcpu_state_of_word_simps:
  "vcpu_state_of_word (vcpu_state_to_word st) = Some st"
  by (cases st) (simp_all add: vcpu_state_of_word_def vcpu_state_of_int_def vcpu_state_to_word_def)

lemma vcpu_state_of_word_first: "vcpu_state_of_word 0 = Some off"
  by (simp add: vcpu_state_of_word_def vcpu_state_of_int_def)

lemma launch_switch_other:
  assumes "vcpu_state_of_word captured \<noteq> Some off"
    "vcpu_state_of_word captured \<noteq> Some launching"
  shows "launch_switch p h captured vp = hvpp_assert (asserts_enabled p) False vp"
proof (cases "vcpu_state_of_word captured")
  case None
  then show ?thesis by (simp add: launch_switch_def)
next
  case (Some st)
  with assms have "st \<noteq> off" "st \<noteq> launching" by auto
  with Some show ?thesis by (cases st) (simp_all add: launch_switch_def)
qed

lemma load_vmxon_accepted:
  assumes "vmxon_ok (answers c)"
  shows "\<exists>v' c'. load_vmxon p (v, c) = Done (v', c') \<and> state_m v' = initializing \<and>
           state_stores (trace c') = state_stores (trace c) @ [initializing] \<and>
           answers c' = answers c"
  using assms
  by (simp add: load_vmxon_def Let_def set_state_def cpu_insn_defs state_stores_append)

lemma load_vmcs_accepted:
  assumes "state_m v = initializing" "vmclear_ok (answers c)" "vmptrld_ok (answers c)"
  shows "\<exists>v' c'. load_vmcs p (v, c) = Done (v', c') \<and> state_m v' = initializing \<and>
           state_stores (trace c') = state_stores (trace c) \<and> answers c' = answers c"
  using assms
  by (simp add: load_vmcs_def then_do_hvpp_assert Let_def exec_def state_stores_append)

lemma setup_host_guest:
  "\<exists>v' c'. setup_guest p (setup_host p (v, c)) = (v', c') \<and> state_m v' = state_m v \<and>
     trace c' = trace c \<and> answers c' = answers c \<and> guest_rip c' = entry_guest_address p"
  by (simp add: setup_guest_def setup_host_def Let_def vmwrite_def vmwrite_ctl_def
      host_segment_def guest_rip_def)

lemma launch_accepted:
  assumes ok: "vmxon_ok (answers c)" "vmclear_ok (answers c)" "vmptrld_ok (answers c)"
      "vmlaunch_ok (answers c)"
    and pas: "setup_passive h"
  shows "\<exists>v' c'. launch p h (v, c) = Done (v', c') \<and> state_m v' = running \<and>
           state_stores (trace c') = state_stores (trace c) @ [initializing, running]"
proof -
  let ?v0 = "v\<lparr>guest_context_m := captured_context p\<rparr>"
  obtain v1 c1 where s1: "load_vmxon p (?v0, c) = Done (v1, c1)" "state_m v1 = initializing"
    "state_stores (trace c1) = state_stores (trace c) @ [initializing]" "answers c1 = answers c"
    using load_vmxon_accepted [OF ok(1)] by blast
  obtain v2 c2 where s2: "load_vmcs p (v1, c1) = Done (v2, c2)" "state_m v2 = initializing"
    "state_stores (trace c2) = state_stores (trace c1)" "answers c2 = answers c1"
    using load_vmcs_accepted [of v1 c1 p] s1 ok by auto
  obtain v3 c3 where s3: "setup_guest p (setup_host p (v2, c2)) = (v3, c3)"
    "state_m v3 = state_m v2" "trace c3 = trace c2" "answers c3 = answers c2"
    "guest_rip c3 = entry_guest_address p"
    using setup_host_guest [of p v2 c2] by blast
  obtain v4 c4 where s4: "handler_setup h (v3, c3) = Done (v4, c4)" "state_m v4 = state_m v3"
    "state_stores (trace c4) = state_stores (trace c3)" "guest_rip c4 = guest_rip c3"
    "answers c4 = answers c3"
    using pas unfolding setup_passive_def by blast
  have go: "vmlaunch_ok (answers c4)" using s1 s2 s3 s4 ok by simp
  have entered: "vcpu_setup p h (?v0, c) = Vm_entered (v4, exec (Vmlaunch True) c4)"
    using s1 s2 s3 s4 go by (simp add: vcpu_setup_def vmlaunch_cases)
  have rip: "guest_rip (exec (Vmlaunch True) c4) = entry_guest_address p"
    using s3 s4 by (simp add: guest_rip_def exec_def)
  have "launch p h (v, c) =
      Done (set_state running
        (v4\<lparr>guest_context_m := (guest_context_m v4)\<lparr>rax := vcpu_state_to_word launching\<rparr>\<rparr>,
         exec (Vmlaunch True) c4))"
    using entered rip
    by (simp add: launch_def capture_def launch_switch_def vcpu_state_of_word_first
        vcpu_state_of_word_simps entry_guest_def)
  then show ?thesis
    using s1 s2 s3 s4 by (simp add: set_state_def exec_def state_stores_append)
qed

lemma vcpu_setup_vmlaunch_refused:
  assumes ok: "vmxon_ok (answers c)" "vmclear_ok (answers c)" "vmptrld_ok (answers c)"
      "\<not> vmlaunch_ok (answers c)"
    and pas: "setup_passive h"
  shows "\<exists>v' c'. vcpu_setup p h (v, c) = Done (v', c')"
proof -
  obtain v1 c1 where s1: "load_vmxon p (v, c) = Done (v1, c1)" "state_m v1 = initializing"
    "answers c1 = answers c"
    using load_vmxon_accepted [OF ok(1)] by blast
  obtain v2 c2 where s2: "load_vmcs p (v1, c1) = Done (v2, c2)" "state_m v2 = initializing"
    "answers c2 = answers c1"
    using load_vmcs_accepted [of v1 c1 p] s1 ok by auto
  obtain v3 c3 where s3: "setup_guest p (setup_host p (v2, c2)) = (v3, c3)"
    "state_m v3 = state_m v2" "answers c3 = answers c2"
    using setup_host_guest [of p v2 c2] by blast
  obtain v4 c4 where s4: "handler_setup h (v3, c3) = Done (v4, c4)" "state_m v4 = state_m v3"
    "answers c4 = answers c3"
    using pas unfolding setup_passive_def by blast
  have no: "\<not> vmlaunch_ok (answers c4)" using s1 s2 s3 s4 ok by simp
  have st: "state_m v4 \<noteq> off" "state_m v4 \<noteq> terminated" using s2 s3 s4 by simp_all
  have "vcpu_setup p h (v, c) = error p (v4, exec (Vmlaunch False) c4)"
    using s1 s2 s3 s4 no by (simp add: vcpu_setup_def vmlaunch_cases)
  then show ?thesis using st by (simp add: error_def Let_def terminate_legal)
qed

lemma example_handler_passive: "setup_passive example_handler"
  by (simp add: setup_passive_def example_handler_def)

lemma entry_guest_sentinel:
  "vcpu_state_of_word (rax (guest_context_m (fst (entry_guest vp)))) = Some launching"
  by (cases vp) (simp add: entry_guest_def vcpu_state_of_word_simps)

lemma launch_unfolded:
  "launch p h vp =
     (case vcpu_setup p h (capture p vp) of
        Vm_entered vp1 \<Rightarrow>
          if guest_rip (snd vp1) = entry_guest_address p
          then Done (set_state running (entry_guest vp1))
          else Vm_entered vp1
      | Returned r vp1 \<Rightarrow> Returned r vp1
      | Faulted e vp1 \<Rightarrow> Faulted e vp1)"
proof (cases "vcpu_setup p h (capture p vp)")
  case (Returned r vp1)
  then show ?thesis by (simp add: launch_def launch_switch_def vcpu_state_of_word_first)
next
  case (Faulted e vp1)
  then show ?thesis by (simp add: launch_def launch_switch_def vcpu_state_of_word_first)
next
  case (Vm_entered vp1)
  obtain v1 c1 where vp1: "vp1 = (v1, c1)" by (cases vp1)
  obtain v2 c2 where eg: "entry_guest (v1, c1) = (v2, c2)" by (cases "entry_guest (v1, c1)")
  have "vcpu_state_of_word (rax (guest_context_m v2)) = Some launching"
    using entry_guest_sentinel [of "(v1, c1)"] eg by simp
  then show ?thesis
    using Vm_entered vp1 eg
    by (simp add: launch_def launch_switch_def vcpu_state_of_word_first)
qed

lemma launch_running_second_return:
  assumes "launch p h vp = Returned r vp'" "state_m (fst vp') = running"
  shows "\<exists>vp1. vcpu_setup p h (capture p vp) = Vm_entered vp1 \<and>
           guest_rip (snd vp1) = entry_guest_address p \<and>
           vp' = set_state running (entry_guest vp1)"
proof (cases "vcpu_setup p h (capture p vp)")
  case (Returned r1 vp1)
  with assms(1) have "vp' = vp1" by (simp add: launch_unfolded)
  with Returned have "state_m (fst vp') = terminated"
    using vcpu_setup_returned_state by blast
  with assms(2) show ?thesis by simp
next
  case (Faulted e vp1)
  with assms(1) show ?thesis by (simp add: launch_unfolded)
next
  case (Vm_entered vp1)
  with assms(1) show ?thesis by (simp add: launch_unfolded split: if_splits)
qed

section \<open>The lifecycle state\<close>




section \<open>The launch routine\<close>

text \<open>
  C2. \<open>launch\<close> switches on the value that the context capture returned, converted to
  \<open>vcpu_state\<close> (the low 32 bits of the register decide). For \<open>off\<close>, the first return,
  it runs \<open>setup\<close>, which comes back to its caller only through \<open>error()\<close>, in state
  \<open>terminated\<close>, and which leaves for the guest when \<open>vmlaunch\<close> is accepted. For
  \<open>launching\<close>, which is what \<open>entry_guest\<close> puts into the captured context, it stores
  \<open>running\<close> and returns. With assertions compiled in, every other value stops at the
  assertion. So \<open>launch\<close> as a whole runs \<open>setup\<close> on the captured context and, when the
  guest is entered at the trampoline, returns to its caller in \<open>running\<close>; whenever it
  returns in \<open>running\<close> it has come through that second return; and it does return so,
  once, when the processor accepts the VMX instructions.
\<close>

theorem launch_return_paths:
  "(vcpu_state_of_word captured = Some off \<longleftrightarrow> (ucast captured :: 32 word) = 0) \<and>
   (vcpu_state_of_word captured = Some launching \<longleftrightarrow> (ucast captured :: 32 word) = 2) \<and>
   (vcpu_state_of_word captured = Some off \<longrightarrow>
      launch_switch p h captured vp = vcpu_setup p h vp) \<and>
   (vcpu_setup p h vp = Returned r vp' \<longrightarrow> state_m (fst vp') = terminated) \<and>
   (load_vmxon p vp = Done vp1 \<longrightarrow> load_vmcs p vp1 = Done vp2 \<longrightarrow>
      handler_setup h (setup_guest p (setup_host p vp2)) = Done (v3, c3) \<longrightarrow>
      vmlaunch_ok (answers c3) \<longrightarrow>
      vcpu_setup p h vp = Vm_entered (v3, exec (Vmlaunch True) c3)) \<and>
   vcpu_state_of_word (rax (guest_context_m (fst (entry_guest vp)))) = Some launching \<and>
   (vcpu_state_of_word captured = Some launching \<longrightarrow>
      launch_switch p h captured vp = Done (set_state running vp)) \<and>
   state_m (fst (set_state running vp)) = running \<and>
   (asserts_enabled p \<longrightarrow> vcpu_state_of_word captured \<noteq> Some off \<longrightarrow>
      vcpu_state_of_word captured \<noteq> Some launching \<longrightarrow>
      launch_switch p h captured vp = Faulted Assertion_failed vp) \<and>
   (launch_switch p h captured vp = Returned r vp' \<longrightarrow> state_m (fst vp') = running \<longrightarrow>
      asserts_enabled p \<or> state_m (fst vp) \<noteq> running \<longrightarrow>
      vcpu_state_of_word captured = Some launching) \<and>
   launch p h vp =
     (case vcpu_setup p h (capture p vp) of
        Vm_entered vp1 \<Rightarrow>
          if guest_rip (snd vp1) = entry_guest_address p
          then Done (set_state running (entry_guest vp1))
          else Vm_entered vp1
      | Returned r vp1 \<Rightarrow> Returned r vp1
      | Faulted e vp1 \<Rightarrow> Faulted e vp1) \<and>
   (launch p h vp = Returned r vp' \<longrightarrow> state_m (fst vp') = running \<longrightarrow>
      (\<exists>vp1. vcpu_setup p h (capture p vp) = Vm_entered vp1 \<and>
             guest_rip (snd vp1) = entry_guest_address p \<and>
             vp' = set_state running (entry_guest vp1))) \<and>
   (vmxon_ok (answers c) \<longrightarrow> vmclear_ok (answers c) \<longrightarrow> vmptrld_ok (answers c) \<longrightarrow>
    vmlaunch_ok (answers c) \<longrightarrow> setup_passive h \<longrightarrow>
      (\<exists>v' c'. launch p h (v, c) = Done (v', c') \<and> state_m v' = running))"
proof (intro conjI impI)
  show "vcpu_state_of_word captured = Some off \<longleftrightarrow> (ucast captured :: 32 word) = 0"
    by (simp add: vcpu_state_of_word_def vcpu_state_of_int_def)
  show "vcpu_state_of_word captured = Some launching \<longleftrightarrow> (ucast captured :: 32 word) = 2"
    by (simp add: vcpu_state_of_word_def vcpu_state_of_int_def)
  show "vcpu_state_of_word (rax (guest_context_m (fst (entry_guest vp)))) = Some launching"
    by (rule entry_guest_sentinel)
  show "state_m (fst (set_state running vp)) = running"
    by (cases vp) (simp add: set_state_def)
  show "launch p h vp =
     (case vcpu_setup p h (capture p vp) of
        Vm_entered vp1 \<Rightarrow>
          if guest_rip (snd vp1) = entry_guest_address p
          then Done (set_state running (entry_guest vp1))
          else Vm_entered vp1
      | Returned r vp1 \<Rightarrow> Returned r vp1
      | Faulted e vp1 \<Rightarrow> Faulted e vp1)"
    by (rule launch_unfolded)
next
  assume "vcpu_state_of_word captured = Some off"
  then show "launch_switch p h captured vp = vcpu_setup p h vp"
    by (simp add: launch_switch_def)
next
  assume "vcpu_state_of_word captured = Some launching"
  then show "launch_switch p h captured vp = Done (set_state running vp)"
    by (simp add: launch_switch_def)
next
  assume "vcpu_setup p h vp = Returned r vp'"
  then show "state_m (fst vp') = terminated" by (rule vcpu_setup_returned_state)
next
  assume "load_vmxon p vp = Done vp1" "load_vmcs p vp1 = Done vp2"
    "handler_setup h (setup_guest p (setup_host p vp2)) = Done (v3, c3)"
    "vmlaunch_ok (answers c3)"
  then show "vcpu_setup p h vp = Vm_entered (v3, exec (Vmlaunch True) c3)"
    by (simp add: vcpu_setup_def vmlaunch_cases)
next
  assume "asserts_enabled p" "vcpu_state_of_word captured \<noteq> Some off"
    "vcpu_state_of_word captured \<noteq> Some launching"
  then show "launch_switch p h captured vp = Faulted Assertion_failed vp"
    by (simp add: launch_switch_other hvpp_assert_def)
next
  assume ret: "launch_switch p h captured vp = Returned r vp'"
    and run: "state_m (fst vp') = running"
    and pre: "asserts_enabled p \<or> state_m (fst vp) \<noteq> running"
  show "vcpu_state_of_word captured = Some launching"
  proof (rule ccontr)
    assume not_launching: "vcpu_state_of_word captured \<noteq> Some launching"
    show False
    proof (cases "vcpu_state_of_word captured = Some off")
      case True
      with ret have "vcpu_setup p h vp = Returned r vp'"
        by (simp add: launch_switch_def)
      then have "state_m (fst vp') = terminated" by (rule vcpu_setup_returned_state)
      with run show False by simp
    next
      case False
      with not_launching ret have "hvpp_assert (asserts_enabled p) False vp = Returned r vp'"
        by (simp add: launch_switch_other)
      then have "\<not> asserts_enabled p" "vp' = vp"
        by (auto simp: hvpp_assert_def split: if_splits)
      with run pre show False by simp
    qed
  qed
next
  assume "launch p h vp = Returned r vp'" "state_m (fst vp') = running"
  then show "\<exists>vp1. vcpu_setup p h (capture p vp) = Vm_entered vp1 \<and>
             guest_rip (snd vp1) = entry_guest_address p \<and>
             vp' = set_state running (entry_guest vp1)"
    by (rule launch_running_second_return)
next
  assume "vmxon_ok (answers c)" "vmclear_ok (answers c)" "vmptrld_ok (answers c)"
    "vmlaunch_ok (answers c)" "setup_passive h"
  then show "\<exists>v' c'. launch p h (v, c) = Done (v', c') \<and> state_m v' = running"
    using launch_accepted [of c h p v] by blast
qed

theorem launch_return_paths_witness:
  "asserts_enabled example_platform \<and>
   vcpu_state_of_word 7 \<noteq> Some off \<and> vcpu_state_of_word 7 \<noteq> Some launching \<and>
   launch_switch example_platform example_handler 7 (example_vcpu, example_cpu) =
     Faulted Assertion_failed (example_vcpu, example_cpu) \<and>
   vcpu_state_of_word 0x100000002 = Some launching \<and>
   launch_switch example_platform example_handler 0x100000002 (example_vcpu, example_cpu) =
     Done (set_state running (example_vcpu, example_cpu)) \<and>
   has_returned (load_vmxon example_platform (example_vcpu, example_cpu)) \<and>
   has_entered_guest (vcpu_setup example_platform example_handler (example_vcpu, example_cpu)) \<and>
   has_returned (vcpu_setup example_platform example_handler (example_vcpu, example_refusing_cpu)) \<and>
   state_m (fst (flow_state
     (vcpu_setup example_platform example_handler (example_vcpu, example_refusing_cpu)))) = terminated \<and>
   vmxon_ok (answers example_cpu) \<and> vmclear_ok (answers example_cpu) \<and>
   vmptrld_ok (answers example_cpu) \<and> vmlaunch_ok (answers example_cpu) \<and>
   setup_passive example_handler \<and>
   has_returned (launch example_platform example_handler (example_vcpu, example_cpu)) \<and>
   state_m (fst (flow_state
     (launch example_platform example_handler (example_vcpu, example_cpu)))) = running \<and>
   has_entered_guest (vcpu_setup example_platform example_handler
     (capture example_platform (example_vcpu, example_cpu)))"
proof -
  let ?p = example_platform and ?h = example_handler
  have a: "asserts_enabled ?p" by (simp add: example_platform_def)
  have d7: "vcpu_state_of_word 7 \<noteq> Some off" "vcpu_state_of_word 7 \<noteq> Some launching"
    by (simp_all add: vcpu_state_of_word_def vcpu_state_of_int_def)
  have d2: "vcpu_state_of_word 0x100000002 = Some launching"
    using launch_return_paths [where captured = "0x100000002"] by simp
  have ok: "vmxon_ok (answers example_cpu)" "vmclear_ok (answers example_cpu)"
    "vmptrld_ok (answers example_cpu)" "vmlaunch_ok (answers example_cpu)"
    by (simp_all add: example_cpu_def)
  have f: "launch_switch ?p ?h 7 (example_vcpu, example_cpu) =
     Faulted Assertion_failed (example_vcpu, example_cpu)"
    using launch_return_paths [where p = ?p and h = ?h and captured = 7
        and vp = "(example_vcpu, example_cpu)"] a d7 by simp
  have g: "launch_switch ?p ?h 0x100000002 (example_vcpu, example_cpu) =
     Done (set_state running (example_vcpu, example_cpu))"
    using launch_return_paths [where p = ?p and h = ?h and captured = "0x100000002"
        and vp = "(example_vcpu, example_cpu)"] d2 by simp
  obtain v1 c1 where s1: "load_vmxon ?p (example_vcpu, example_cpu) = Done (v1, c1)"
    "state_m v1 = initializing" "answers c1 = answers example_cpu"
    using load_vmxon_accepted [OF ok(1)] by blast
  obtain v2 c2 where s2: "load_vmcs ?p (v1, c1) = Done (v2, c2)" "answers c2 = answers c1"
    using load_vmcs_accepted [of v1 c1 ?p] s1 ok by auto
  obtain v3 c3 where s3: "setup_guest ?p (setup_host ?p (v2, c2)) = (v3, c3)"
    "answers c3 = answers c2"
    using setup_host_guest [of ?p v2 c2] by blast
  have s4: "handler_setup ?h (setup_guest ?p (setup_host ?p (v2, c2))) = Done (v3, c3)"
    using s3 by (simp add: example_handler_def)
  have e: "vcpu_setup ?p ?h (example_vcpu, example_cpu) = Vm_entered (v3, exec (Vmlaunch True) c3)"
    using launch_return_paths [where p = ?p and h = ?h and vp = "(example_vcpu, example_cpu)"
        and ?vp1.0 = "(v1, c1)" and ?vp2.0 = "(v2, c2)" and ?v3.0 = v3 and ?c3.0 = c3]
      s1 s2 s3 s4 ok by simp
  have ok': "vmxon_ok (answers example_refusing_cpu)" "vmclear_ok (answers example_refusing_cpu)"
    "vmptrld_ok (answers example_refusing_cpu)" "\<not> vmlaunch_ok (answers example_refusing_cpu)"
    by (simp_all add: example_refusing_cpu_def)
  obtain v' c' where r: "vcpu_setup ?p ?h (example_vcpu, example_refusing_cpu) = Done (v', c')"
    using vcpu_setup_vmlaunch_refused [OF ok' example_handler_passive] by blast
  have t: "state_m v' = terminated"
    using launch_return_paths [where p = ?p and h = ?h
        and vp = "(example_vcpu, example_refusing_cpu)" and r = "()" and vp' = "(v', c')"] r
    by simp
  obtain vl cl where l: "launch ?p ?h (example_vcpu, example_cpu) = Done (vl, cl)"
    "state_m vl = running"
    using launch_return_paths [where p = ?p and h = ?h and c = example_cpu and v = example_vcpu]
      ok example_handler_passive by blast
  have "launch ?p ?h (example_vcpu, example_cpu) = Returned () (vl, cl) \<longrightarrow>
      state_m (fst (vl, cl)) = running \<longrightarrow>
      (\<exists>vp1. vcpu_setup ?p ?h (capture ?p (example_vcpu, example_cpu)) = Vm_entered vp1 \<and>
             guest_rip (snd vp1) = entry_guest_address ?p \<and>
             (vl, cl) = set_state running (entry_guest vp1))"
    using launch_return_paths [where p = ?p and h = ?h and vp = "(example_vcpu, example_cpu)"
        and r = "()" and vp' = "(vl, cl)"] by blast
  then obtain vp1 where w:
    "vcpu_setup ?p ?h (capture ?p (example_vcpu, example_cpu)) = Vm_entered vp1"
    using l by auto
  show ?thesis using a d7 d2 f g s1 e r t ok example_handler_passive l w by simp
qed

section \<open>The exit dispatch\<close>

lemma entry_host_before_handler_facts:
  "\<not> suppress_rip_adjust_m (fst (entry_host_before_handler (v, c)))"
  "fxsave_area_m (fst (entry_host_before_handler (v, c))) = fx_registers c"
  "rip (exit_context_m (fst (entry_host_before_handler (v, c)))) = guest_rip c"
  by (simp_all add: entry_host_before_handler_def ia32_asm_fx_save_def Let_def exec_def guest_rip_def)

lemma entry_host_before_handler_keeps:
  "state_m (fst (entry_host_before_handler (v, c))) = state_m v \<and>
   vmcs (snd (entry_host_before_handler (v, c))) = vmcs c"
  by (simp add: entry_host_before_handler_def ia32_asm_fx_save_def Let_def exec_def)

text \<open>
  C3. \<open>entry_host\<close> clears the suppress-advance flag and saves the FX registers before it
  calls the handler. When the handler returns in state \<open>terminated\<close>, nothing but the FX
  restore follows: no VMCS field is written. Otherwise the guest RIP written back is the
  exit context's RIP, advanced by the instruction length exactly when the handler did
  not set the flag; RSP and RFLAGS are written back, the exit context is pointed at
  \<open>vmresume\<close>, and the FX registers are restored from the save area on this path too.
\<close>

theorem entry_host_dispatch:
  "\<not> suppress_rip_adjust_m (fst (entry_host_before_handler (v, c))) \<and>
   fxsave_area_m (fst (entry_host_before_handler (v, c))) = fx_registers c \<and>
   rip (exit_context_m (fst (entry_host_before_handler (v, c)))) = guest_rip c \<and>
   (handler_handle h (entry_host_before_handler (v, c)) = Done (v1, c1) \<longrightarrow>
      (state_m v1 = terminated \<longrightarrow>
         entry_host p h (v, c) =
           Done (v1, c1\<lparr>fx_registers := fxsave_area_m v1, trace := trace c1 @ [Fx_restore]\<rparr>)) \<and>
      (state_m v1 \<noteq> terminated \<longrightarrow>
         (\<exists>v2 c2. entry_host p h (v, c) = Done (v2, c2) \<and>
            guest_rip c2 =
              (if suppress_rip_adjust_m v1 then rip (exit_context_m v1)
               else rip (exit_context_m v1) + ucast (exit_instruction_length c1)) \<and>
            guest_rsp c2 = rsp (exit_context_m v1) \<and>
            guest_rflags c2 = rflags (exit_context_m v1) \<and>
            rip (exit_context_m v2) = vmresume_address p \<and>
            fx_registers c2 = fxsave_area_m v1 \<and>
            trace c2 = trace c1 @ [Fx_restore])))"
  by (simp add: entry_host_before_handler_facts entry_host_def entry_host_after_handler_def
      ia32_asm_fx_restore_def Let_def vmwrite_def exec_def guest_rip_def guest_rsp_def
      guest_rflags_def exit_instruction_length_def)

theorem entry_host_dispatch_witness:
  "state_m (fst (entry_host_before_handler (example_running_vcpu, example_cpu))) \<noteq> terminated \<and>
   has_returned (handler_handle example_handler
     (entry_host_before_handler (example_running_vcpu, example_cpu))) \<and>
   guest_rip (snd (flow_state
     (entry_host example_platform example_handler (example_running_vcpu, example_cpu)))) = 0x1003 \<and>
   has_returned (handler_handle example_terminating_handler
     (entry_host_before_handler (example_running_vcpu, example_cpu))) \<and>
   state_m (fst (flow_state
     (entry_host example_platform example_terminating_handler (example_running_vcpu, example_cpu)))) =
     terminated \<and>
   guest_rip (snd (flow_state
     (entry_host example_platform example_terminating_handler (example_running_vcpu, example_cpu)))) =
     0x1000"
proof -
  obtain v c where x: "entry_host_before_handler (example_running_vcpu, example_cpu) = (v, c)"
    by (cases "entry_host_before_handler (example_running_vcpu, example_cpu)")
  have st: "state_m v = running" and vm: "vmcs c = vmcs example_cpu"
    using entry_host_before_handler_keeps [of example_running_vcpu example_cpu] x
    by (simp_all add: example_running_vcpu_def)
  have gr: "guest_rip example_cpu = 0x1000" and len: "exit_instruction_length c = 3"
    using vm by (simp_all add: guest_rip_def exit_instruction_length_def example_cpu_def)
  have pre: "\<not> suppress_rip_adjust_m v" "rip (exit_context_m v) = 0x1000"
    using entry_host_dispatch [where v = example_running_vcpu and c = example_cpu] x gr
    by simp_all
  have h1: "handler_handle example_handler (v, c) = Done (v, c)"
    by (simp add: example_handler_def)
  from entry_host_dispatch [where v = example_running_vcpu and c = example_cpu
      and h = example_handler and p = example_platform and ?v1.0 = v and ?c1.0 = c] x h1 st pre len
  obtain v2 c2 where r1:
    "entry_host example_platform example_handler (example_running_vcpu, example_cpu) = Done (v2, c2)"
    "guest_rip c2 = 0x1003"
    by auto
  let ?v1 = "v\<lparr>exit_context_m := (exit_context_m v)
                \<lparr>rip := rip (exit_context_m v) + ucast (exit_instruction_length c)\<rparr>,
             state_m := terminated\<rparr>"
  let ?c1 = "c\<lparr>gdtr := guest_gdtr c, idtr := guest_idtr c, cr3 := guest_cr3 c,
             vmx_root := False, cr4 := vmx_enable_clear (cr4 c),
             trace := trace c @
               [Write_gdtr (guest_gdtr c), Write_idtr (guest_idtr c), Write_cr3 (guest_cr3 c),
                Invvpid_all_contexts, Invept_all_contexts, Vmxoff,
                Write_cr4 (vmx_enable_clear (cr4 c)), Store_state terminated]\<rparr>"
  have h2: "handler_handle example_terminating_handler (v, c) = Done (?v1, ?c1)"
    using st by (simp add: example_terminating_handler_def terminate_legal)
  from entry_host_dispatch [where v = example_running_vcpu and c = example_cpu
      and h = example_terminating_handler and p = example_platform and ?v1.0 = ?v1 and ?c1.0 = ?c1]
    x h2
  have r2: "entry_host example_platform example_terminating_handler (example_running_vcpu, example_cpu) =
      Done (?v1, ?c1\<lparr>fx_registers := fxsave_area_m ?v1, trace := trace ?c1 @ [Fx_restore]\<rparr>)"
    by simp
  show ?thesis
    using x st h1 h2 r1 r2 vm gr by (simp add: guest_rip_def)
qed

section \<open>The pending-interrupt queue\<close>

lemma slot_distinct:
  fixes f k n :: nat
  assumes "k < n" "n < 16"
  shows "(f + k) mod 16 \<noteq> (f + n) mod 16"
proof
  assume "(f + k) mod 16 = (f + n) mod 16"
  then have "(f + n - (f + k)) mod 16 = 0"
    using assms by (metis add_le_cancel_left less_imp_le_nat mod_eq_dvd_iff_nat dvd_imp_mod_0)
  then have "(n - k) mod 16 = 0" by simp
  with assms show False by simp
qed

lemma front_slot:
  fixes f k :: nat
  shows "((f + 15) mod 16 + Suc k) mod 16 = (f + k) mod 16"
proof -
  have "((f + 15) mod 16 + Suc k) mod 16 = (f + 15 + Suc k) mod 16"
    by (rule mod_add_left_eq)
  also have "\<dots> = (f + k + 16) mod 16"
  proof -
    have "f + 15 + Suc k = f + k + 16" by arith
    then show ?thesis by (rule arg_cong)
  qed
  also have "\<dots> = (f + k) mod 16" by simp
  finally show ?thesis .
qed

lemma dequeue_slot:
  fixes f k :: nat
  shows "((f + 1) mod 16 + k) mod 16 = (f + Suc k) mod 16"
proof -
  have "((f + 1) mod 16 + k) mod 16 = (f + 1 + k) mod 16"
    by (rule mod_add_left_eq)
  also have "\<dots> = (f + Suc k) mod 16"
  proof -
    have "f + 1 + k = f + Suc k" by arith
    then show ?thesis by (rule arg_cong)
  qed
  finally show ?thesis .
qed

lemma map_upt_shift: "map g [0..<Suc n] = g 0 # map (\<lambda>k. g (Suc k)) [0..<n]"
  by (simp add: upt_rec [of 0] map_Suc_upt [symmetric] del: upt_Suc)

lemma inject_full:
  "pending_interrupt_count_m v \<ge> pending_interrupt_queue_size \<Longrightarrow>
   interrupt_inject x front v = (False, v)"
  by (simp add: interrupt_inject_def)

lemma inject_tail:
  assumes inv: "queue_inv v"
    and room: "pending_interrupt_count_m v < pending_interrupt_queue_size"
  shows "fst (interrupt_inject x False v) \<and>
    pending_interrupts (snd (interrupt_inject x False v)) = pending_interrupts v @ [x] \<and>
    queue_inv (snd (interrupt_inject x False v))"
proof -
  let ?f = "pending_interrupt_first_m v"
  let ?n = "pending_interrupt_count_m v"
  let ?sl = "pending_interrupt_m v"
  let ?t = "(?f + ?n) mod 16"
  let ?v' = "v\<lparr>pending_interrupt_m := ?sl[?t := x], pending_interrupt_count_m := ?n + 1\<rparr>"
  have n: "?n < 16" using room by (simp add: pending_interrupt_queue_size_def)
  have len: "length ?sl = 16" and f: "?f < 16"
    using inv by (simp_all add: queue_inv_def pending_interrupt_queue_size_def)
  have r: "interrupt_inject x False v = (True, ?v')"
    using n by (simp add: interrupt_inject_def pending_interrupt_queue_size_def Let_def)
  have old: "map (\<lambda>k. ?sl[?t := x] ! ((?f + k) mod 16)) [0..<?n] =
             map (\<lambda>k. ?sl ! ((?f + k) mod 16)) [0..<?n]"
  proof (rule map_cong [OF refl])
    fix k assume "k \<in> set [0..<?n]"
    then have "k < ?n" by simp
    then have "(?f + k) mod 16 \<noteq> ?t" using n by (rule slot_distinct)
    then show "?sl[?t := x] ! ((?f + k) mod 16) = ?sl ! ((?f + k) mod 16)"
      by simp
  qed
  have new: "?sl[?t := x] ! ?t = x" using len by simp
  have "pending_interrupts ?v' =
        map (\<lambda>k. ?sl[?t := x] ! ((?f + k) mod 16)) [0..<?n] @ [?sl[?t := x] ! ?t]"
    by (simp add: pending_interrupts_def pending_interrupt_queue_size_def)
  also have "\<dots> = pending_interrupts v @ [x]"
    by (simp only: old new pending_interrupts_def pending_interrupt_queue_size_def)
  finally have p: "pending_interrupts ?v' = pending_interrupts v @ [x]" .
  have q: "queue_inv ?v'"
    using len f n by (simp add: queue_inv_def pending_interrupt_queue_size_def)
  show ?thesis using r p q by simp
qed

lemma front_distinct:
  fixes f k n :: nat
  assumes "k < n" "n < 16"
  shows "(f + k) mod 16 \<noteq> (f + 15) mod 16"
proof -
  have "0 < Suc k" "Suc k < 16" using assms by simp_all
  then have ne: "((f + 15) mod 16 + 0) mod 16 \<noteq> ((f + 15) mod 16 + Suc k) mod 16"
    by (rule slot_distinct)
  have a: "((f + 15) mod 16 + Suc k) mod 16 = (f + k) mod 16" by (rule front_slot)
  have b: "((f + 15) mod 16 + 0) mod 16 = (f + 15) mod 16" by simp
  from ne show ?thesis unfolding a b by (rule not_sym)
qed

lemma inject_front:
  assumes inv: "queue_inv v"
    and room: "pending_interrupt_count_m v < pending_interrupt_queue_size"
  shows "fst (interrupt_inject x True v) \<and>
    pending_interrupts (snd (interrupt_inject x True v)) = x # pending_interrupts v \<and>
    queue_inv (snd (interrupt_inject x True v))"
proof -
  let ?f = "pending_interrupt_first_m v"
  let ?n = "pending_interrupt_count_m v"
  let ?sl = "pending_interrupt_m v"
  let ?h = "(?f + 15) mod 16"
  let ?v' = "v\<lparr>pending_interrupt_m := ?sl[?h := x], pending_interrupt_first_m := ?h,
               pending_interrupt_count_m := ?n + 1\<rparr>"
  have n: "?n < 16" using room by (simp add: pending_interrupt_queue_size_def)
  have len: "length ?sl = 16" and f: "?f < 16"
    using inv by (simp_all add: queue_inv_def pending_interrupt_queue_size_def)
  have h: "?h < 16" by simp
  have "?f + pending_interrupt_queue_size - 1 = ?f + 15"
    by (simp add: pending_interrupt_queue_size_def)
  then have r: "interrupt_inject x True v = (True, ?v')"
    using n by (simp add: interrupt_inject_def Let_def pending_interrupt_queue_size_def add.commute)
  have old: "map (\<lambda>k. ?sl[?h := x] ! ((?h + Suc k) mod 16)) [0..<?n] =
             map (\<lambda>k. ?sl ! ((?f + k) mod 16)) [0..<?n]"
  proof (rule map_cong [OF refl])
    fix k assume "k \<in> set [0..<?n]"
    then have "k < ?n" by simp
    then have "(?f + k) mod 16 \<noteq> ?h" using n by (rule front_distinct)
    then have "?sl[?h := x] ! ((?f + k) mod 16) = ?sl ! ((?f + k) mod 16)"
      by simp
    then show "?sl[?h := x] ! ((?h + Suc k) mod 16) = ?sl ! ((?f + k) mod 16)"
      by (simp only: front_slot)
  qed
  have new: "?sl[?h := x] ! ((?h + 0) mod 16) = x" using len h by simp
  have "pending_interrupts ?v' = map (\<lambda>k. ?sl[?h := x] ! ((?h + k) mod 16)) [0..<Suc ?n]"
    by (simp add: pending_interrupts_def pending_interrupt_queue_size_def)
  also have "\<dots> = ?sl[?h := x] ! ((?h + 0) mod 16) #
                   map (\<lambda>k. ?sl[?h := x] ! ((?h + Suc k) mod 16)) [0..<?n]"
    by (rule map_upt_shift)
  also have "\<dots> = x # pending_interrupts v"
    by (simp only: old new pending_interrupts_def pending_interrupt_queue_size_def)
  finally have p: "pending_interrupts ?v' = x # pending_interrupts v" .
  have q: "queue_inv ?v'"
    using len n by (simp add: queue_inv_def pending_interrupt_queue_size_def)
  show ?thesis using r p q by simp
qed

lemma dequeue_head:
  assumes inv: "queue_inv v" and q: "pending_interrupts v = y # ys"
  shows "\<exists>v'. interrupt_dequeue v = Some (y, v') \<and> pending_interrupts v' = ys \<and> queue_inv v'"
proof -
  let ?f = "pending_interrupt_first_m v"
  let ?sl = "pending_interrupt_m v"
  have len: "length ?sl = 16" and f: "?f < 16"
    and c: "pending_interrupt_count_m v \<le> 16"
    using inv by (simp_all add: queue_inv_def pending_interrupt_queue_size_def)
  have "length (pending_interrupts v) = pending_interrupt_count_m v"
    by (simp add: pending_interrupts_def)
  with q obtain n where n: "pending_interrupt_count_m v = Suc n"
    by (cases "pending_interrupt_count_m v") auto
  let ?v' = "v\<lparr>pending_interrupt_first_m := (?f + 1) mod 16, pending_interrupt_count_m := n\<rparr>"
  have "pending_interrupts v = map (\<lambda>k. ?sl ! ((?f + k) mod 16)) [0..<Suc n]"
    by (simp only: pending_interrupts_def pending_interrupt_queue_size_def n)
  also have "\<dots> = ?sl ! ((?f + 0) mod 16) # map (\<lambda>k. ?sl ! ((?f + Suc k) mod 16)) [0..<n]"
    by (rule map_upt_shift)
  finally have "y # ys = ?sl ! ((?f + 0) mod 16) # map (\<lambda>k. ?sl ! ((?f + Suc k) mod 16)) [0..<n]"
    using q by simp
  then have y: "y = ?sl ! ?f" and ys: "ys = map (\<lambda>k. ?sl ! ((?f + Suc k) mod 16)) [0..<n]"
    using f by simp_all
  have r: "interrupt_dequeue v = Some (y, ?v')"
    using n y by (simp add: interrupt_dequeue_def pending_interrupt_queue_size_def)
  have "pending_interrupts ?v' = map (\<lambda>k. ?sl ! (((?f + 1) mod 16 + k) mod 16)) [0..<n]"
    by (simp add: pending_interrupts_def pending_interrupt_queue_size_def)
  also have "\<dots> = ys" by (simp only: dequeue_slot ys)
  finally have p: "pending_interrupts ?v' = ys" .
  have "queue_inv ?v'"
    using len c n by (simp add: queue_inv_def pending_interrupt_queue_size_def)
  with r p show ?thesis by blast
qed

lemma dequeue_empty:
  "pending_interrupts v = [] \<Longrightarrow> interrupt_dequeue v = None"
  by (simp add: pending_interrupts_def interrupt_dequeue_def)

lemma length_pending_interrupts:
  "length (pending_interrupts v) = pending_interrupt_count_m v"
  by (simp add: pending_interrupts_def)

lemma drain_all:
  "queue_inv v \<Longrightarrow> length (pending_interrupts v) \<le> n \<Longrightarrow> drain n v = pending_interrupts v"
proof (induction n arbitrary: v)
  case 0
  then show ?case by simp
next
  case (Suc n)
  show ?case
  proof (cases "pending_interrupts v")
    case Nil
    then show ?thesis by (simp add: dequeue_empty)
  next
    case (Cons y ys)
    with Suc.prems obtain v' where d: "interrupt_dequeue v = Some (y, v')"
      "pending_interrupts v' = ys" "queue_inv v'"
      using dequeue_head [of v y ys] by blast
    with Suc.prems Cons have "drain n v' = ys" using Suc.IH [of v'] by simp
    with d Cons show ?thesis by simp
  qed
qed

lemma inject_count:
  "pending_interrupt_count_m v \<le> pending_interrupt_queue_size \<Longrightarrow>
   pending_interrupt_count_m (snd (interrupt_inject x front v)) \<le> pending_interrupt_queue_size"
  by (simp add: interrupt_inject_def Let_def)

lemma ctor_queue:
  "queue_inv (vcpu_t_ctor raw) \<and> pending_interrupts (vcpu_t_ctor raw) = []"
  by (simp add: vcpu_t_ctor_def queue_inv_def pending_interrupts_def pending_interrupt_queue_size_def)

lemma scenario_order:
  assumes "queue_inv v" "pending_interrupts v = []"
  shows "drain 3 (snd (interrupt_inject C True (snd (interrupt_inject B False
           (snd (interrupt_inject A False v)))))) = [C, A, B]"
proof -
  let ?v1 = "snd (interrupt_inject A False v)"
  let ?v2 = "snd (interrupt_inject B False ?v1)"
  let ?v3 = "snd (interrupt_inject C True ?v2)"
  have c0: "pending_interrupt_count_m v = 0"
    using assms(2) length_pending_interrupts [of v] by simp
  have 1: "pending_interrupts ?v1 = [A]" "queue_inv ?v1"
    using inject_tail [of v A] assms c0 by (simp_all add: pending_interrupt_queue_size_def)
  then have c1: "pending_interrupt_count_m ?v1 = 1"
    using length_pending_interrupts [of ?v1] by simp
  have 2: "pending_interrupts ?v2 = [A, B]" "queue_inv ?v2"
    using inject_tail [of ?v1 B] 1 c1 by (simp_all add: pending_interrupt_queue_size_def)
  then have c2: "pending_interrupt_count_m ?v2 = 2"
    using length_pending_interrupts [of ?v2] by simp
  have 3: "pending_interrupts ?v3 = [C, A, B]" "queue_inv ?v3"
    using inject_front [of ?v2 C] 2 c2 by (simp_all add: pending_interrupt_queue_size_def)
  then show ?thesis using drain_all [of ?v3 3] by simp
qed

text \<open>
  C4. On a full queue \<open>interrupt_inject\<close> returns false and leaves the virtual CPU as it
  is. With room, it returns true; with \<open>front\<close> the new descriptor is dequeued before all
  queued ones, without \<open>front\<close> after them. The count never exceeds 16. Dequeuing takes
  the descriptors in the order of the queue (first in, first out). Enqueuing A at the
  tail, B at the tail and C at the front of an empty queue dequeues C, A, B.
\<close>

theorem interrupt_queue_order:
  "(pending_interrupt_count_m v \<ge> pending_interrupt_queue_size \<longrightarrow>
      interrupt_inject x front v = (False, v)) \<and>
   (queue_inv v \<longrightarrow> pending_interrupt_count_m v < pending_interrupt_queue_size \<longrightarrow>
      fst (interrupt_inject x front v) \<and>
      pending_interrupts (snd (interrupt_inject x True v)) = x # pending_interrupts v \<and>
      pending_interrupts (snd (interrupt_inject x False v)) = pending_interrupts v @ [x]) \<and>
   (queue_inv v \<longrightarrow>
      queue_inv (snd (interrupt_inject x front v)) \<and>
      pending_interrupt_count_m (snd (interrupt_inject x front v)) \<le> pending_interrupt_queue_size) \<and>
   (queue_inv v \<longrightarrow> pending_interrupts v = y # ys \<longrightarrow>
      (\<exists>v'. interrupt_dequeue v = Some (y, v') \<and> pending_interrupts v' = ys \<and> queue_inv v')) \<and>
   (queue_inv v \<longrightarrow> pending_interrupts v = [] \<longrightarrow>
      drain 3 (snd (interrupt_inject C True (snd (interrupt_inject B False
        (snd (interrupt_inject A False v)))))) = [C, A, B]) \<and>
   queue_inv (vcpu_t_ctor raw) \<and> pending_interrupts (vcpu_t_ctor raw) = []"
proof (intro conjI impI)
  assume "pending_interrupt_queue_size \<le> pending_interrupt_count_m v"
  then show "interrupt_inject x front v = (False, v)" by (rule inject_full)
next
  assume a: "queue_inv v" "pending_interrupt_count_m v < pending_interrupt_queue_size"
  show "fst (interrupt_inject x front v)"
    using inject_tail [OF a] inject_front [OF a] by (cases front) simp_all
  show "pending_interrupts (snd (interrupt_inject x True v)) = x # pending_interrupts v"
    using inject_front [OF a] by simp
  show "pending_interrupts (snd (interrupt_inject x False v)) = pending_interrupts v @ [x]"
    using inject_tail [OF a] by simp
next
  assume a: "queue_inv v"
  show "queue_inv (snd (interrupt_inject x front v))"
  proof (cases "pending_interrupt_count_m v < pending_interrupt_queue_size")
    case True
    then show ?thesis using inject_tail [OF a] inject_front [OF a] by (cases front) simp_all
  next
    case False
    then show ?thesis using a by (simp add: inject_full)
  qed
  show "pending_interrupt_count_m (snd (interrupt_inject x front v)) \<le> pending_interrupt_queue_size"
    using a by (simp add: inject_count queue_inv_def)
next
  assume "queue_inv v" "pending_interrupts v = y # ys"
  then show "\<exists>v'. interrupt_dequeue v = Some (y, v') \<and> pending_interrupts v' = ys \<and> queue_inv v'"
    using dequeue_head by blast
next
  assume "queue_inv v" "pending_interrupts v = []"
  then show "drain 3 (snd (interrupt_inject C True (snd (interrupt_inject B False
        (snd (interrupt_inject A False v)))))) = [C, A, B]"
    by (rule scenario_order)
qed (simp_all add: ctor_queue)

theorem interrupt_queue_order_witness:
  "queue_inv example_vcpu \<and> pending_interrupts example_vcpu = [] \<and>
   pending_interrupt_count_m example_vcpu < pending_interrupt_queue_size \<and>
   drain 3 (snd (interrupt_inject (example_interrupt 3) True
             (snd (interrupt_inject (example_interrupt 2) False
               (snd (interrupt_inject (example_interrupt 1) False example_vcpu)))))) =
     [example_interrupt 3, example_interrupt 1, example_interrupt 2] \<and>
   pending_interrupts (snd (interrupt_inject (example_interrupt 1) False example_vcpu)) =
     [example_interrupt 1] \<and>
   interrupt_dequeue (snd (interrupt_inject (example_interrupt 1) False example_vcpu)) \<noteq> None \<and>
   pending_interrupt_queue_size \<le>
     pending_interrupt_count_m (example_vcpu\<lparr>pending_interrupt_count_m := 16\<rparr>) \<and>
   interrupt_inject (example_interrupt 4) True (example_vcpu\<lparr>pending_interrupt_count_m := 16\<rparr>) =
     (False, example_vcpu\<lparr>pending_interrupt_count_m := 16\<rparr>)"
proof -
  let ?v1 = "snd (interrupt_inject (example_interrupt 1) False example_vcpu)"
  have q: "queue_inv example_vcpu" and e: "pending_interrupts example_vcpu = []"
    using interrupt_queue_order [where raw = example_raw] by (simp_all add: example_vcpu_def)
  have n: "pending_interrupt_count_m example_vcpu < pending_interrupt_queue_size"
    by (simp add: example_vcpu_def vcpu_t_ctor_def pending_interrupt_queue_size_def)
  have d: "drain 3 (snd (interrupt_inject (example_interrupt 3) True
             (snd (interrupt_inject (example_interrupt 2) False
               (snd (interrupt_inject (example_interrupt 1) False example_vcpu)))))) =
     [example_interrupt 3, example_interrupt 1, example_interrupt 2]"
    using interrupt_queue_order [where v = example_vcpu and A = "example_interrupt 1"
        and B = "example_interrupt 2" and C = "example_interrupt 3"] q e
    by simp
  have t: "pending_interrupts ?v1 = [example_interrupt 1]" and q1: "queue_inv ?v1"
    using interrupt_queue_order [where v = example_vcpu and x = "example_interrupt 1"
        and front = False] q e n
    by simp_all
  have "\<exists>v'. interrupt_dequeue ?v1 = Some (example_interrupt 1, v') \<and>
      pending_interrupts v' = [] \<and> queue_inv v'"
    using interrupt_queue_order [where v = ?v1 and y = "example_interrupt 1" and ys = "[]"] q1 t
    by blast
  then have h: "interrupt_dequeue ?v1 \<noteq> None" by auto
  have f: "interrupt_inject (example_interrupt 4) True (example_vcpu\<lparr>pending_interrupt_count_m := 16\<rparr>) =
     (False, example_vcpu\<lparr>pending_interrupt_count_m := 16\<rparr>)"
    using interrupt_queue_order [where v = "example_vcpu\<lparr>pending_interrupt_count_m := 16\<rparr>"
        and x = "example_interrupt 4" and front = True]
    by (simp add: pending_interrupt_queue_size_def)
  show ?thesis using q e n d t h f by (simp add: pending_interrupt_queue_size_def)
qed

section \<open>The termination routine\<close>

text \<open>
  C5. In a state other than \<open>off\<close> and \<open>terminated\<close>, \<open>terminate\<close> returns after advancing
  the saved guest instruction pointer by the reported instruction length, writing the
  guest's GDTR, IDTR and CR3 to the processor, executing INVVPID and INVEPT for all
  contexts and VMXOFF, clearing the VMX-enable bit of CR4 and, last, storing
  \<open>terminated\<close>, in this order. With assertions compiled in, a call in \<open>off\<close> or
  \<open>terminated\<close> stops at the assertion and changes nothing.
\<close>

theorem terminate_effects:
  "(state_m v \<noteq> off \<longrightarrow> state_m v \<noteq> terminated \<longrightarrow>
      (\<exists>v' c'. terminate p (v, c) = Done (v', c') \<and>
         rip (exit_context_m v') = rip (exit_context_m v) + ucast (exit_instruction_length c) \<and>
         gdtr c' = guest_gdtr c \<and> idtr c' = guest_idtr c \<and> cr3 c' = guest_cr3 c \<and>
         \<not> vmx_root c' \<and> \<not> vmx_enable (cr4 c') \<and>
         trace c' = trace c @
           [Write_gdtr (guest_gdtr c), Write_idtr (guest_idtr c), Write_cr3 (guest_cr3 c),
            Invvpid_all_contexts, Invept_all_contexts, Vmxoff,
            Write_cr4 (vmx_enable_clear (cr4 c)), Store_state terminated] \<and>
         state_m v' = terminated)) \<and>
   (asserts_enabled p \<longrightarrow> state_m v = off \<or> state_m v = terminated \<longrightarrow>
      terminate p (v, c) = Faulted Assertion_failed (v, c))"
proof (intro conjI impI)
  assume "state_m v \<noteq> off" "state_m v \<noteq> terminated"
  then show "\<exists>v' c'. terminate p (v, c) = Done (v', c') \<and>
         rip (exit_context_m v') = rip (exit_context_m v) + ucast (exit_instruction_length c) \<and>
         gdtr c' = guest_gdtr c \<and> idtr c' = guest_idtr c \<and> cr3 c' = guest_cr3 c \<and>
         \<not> vmx_root c' \<and> \<not> vmx_enable (cr4 c') \<and>
         trace c' = trace c @
           [Write_gdtr (guest_gdtr c), Write_idtr (guest_idtr c), Write_cr3 (guest_cr3 c),
            Invvpid_all_contexts, Invept_all_contexts, Vmxoff,
            Write_cr4 (vmx_enable_clear (cr4 c)), Store_state terminated] \<and>
         state_m v' = terminated"
    by (simp add: terminate_legal vmx_enable_clear_off)
next
  assume "asserts_enabled p" "state_m v = off \<or> state_m v = terminated"
  then show "terminate p (v, c) = Faulted Assertion_failed (v, c)"
    by (auto simp: terminate_def then_do_hvpp_assert)
qed

theorem terminate_effects_witness:
  "state_m example_running_vcpu \<noteq> off \<and> state_m example_running_vcpu \<noteq> terminated \<and>
   has_returned (terminate example_platform (example_running_vcpu, example_cpu)) \<and>
   state_m (fst (flow_state (terminate example_platform (example_running_vcpu, example_cpu)))) =
     terminated \<and>
   cr3 (snd (flow_state (terminate example_platform (example_running_vcpu, example_cpu)))) =
     guest_cr3 example_cpu \<and>
   asserts_enabled example_platform \<and> state_m example_vcpu = off \<and>
   terminate example_platform (example_vcpu, example_cpu) =
     Faulted Assertion_failed (example_vcpu, example_cpu)"
proof -
  have r: "state_m example_running_vcpu = running"
    by (simp add: example_running_vcpu_def)
  have o: "state_m example_vcpu = off"
    by (simp add: example_vcpu_def vcpu_t_ctor_def)
  have a: "asserts_enabled example_platform" by (simp add: example_platform_def)
  from terminate_effects [of example_running_vcpu example_platform example_cpu] r
  obtain v' c' where "terminate example_platform (example_running_vcpu, example_cpu) = Done (v', c')"
    "state_m v' = terminated" "cr3 c' = guest_cr3 example_cpu"
    by auto
  moreover from terminate_effects [of example_vcpu example_platform example_cpu] a o
  have "terminate example_platform (example_vcpu, example_cpu) =
     Faulted Assertion_failed (example_vcpu, example_cpu)" by simp
  ultimately show ?thesis using r o a by simp
qed

section \<open>Selecting a translation context\<close>

text \<open>
  What holds of \<open>ept_index\<close>: with assertions compiled in, an index not below the count
  stops at the assertion and changes nothing; an index below the count, with the array
  of that many instances in place, selects that instance; an index below the count with
  the array pointer null reads through the null pointer.
\<close>

lemma ept_index_rejected:
  assumes "asserts_enabled p" "\<not> index < ept_count_m v"
  shows "ept_index p index (v, c) = Faulted Assertion_failed (v, c)"
  using assms by (simp add: ept_index_def then_do_hvpp_assert)

lemma ept_index_selected:
  assumes "index < ept_count_m v" "ept_m v = Some es" "length es = unat (ept_count_m v)"
  shows "ept_index p index (v, c) =
     Done (v\<lparr>ept_index_m := index\<rparr>,
           c\<lparr>vmcs := (vmcs c)(Ctrl_ept_pointer := ept_pointer (es ! unat index))\<rparr>)"
  using assms
  by (simp add: ept_index_def then_do_hvpp_assert ept_at_def ept_pointer_set_def vmwrite_def
      word_less_nat_alt)

lemma ept_index_null:
  assumes "index < ept_count_m v" "ept_m v = None"
  shows "ept_index p index (v, c) = Faulted Undefined_behaviour (v, c)"
  using assms by (simp add: ept_index_def then_do_hvpp_assert ept_at_def)

lemma ept_enable_returns:
  assumes "ept_m v = None" "0 < count"
  shows "\<exists>c1. ept_enable p count (v, c) =
     Done (v\<lparr>ept_m := Some (map (new_ept p) [0..<unat count]), ept_count_m := count,
             ept_index_m := 0\<rparr>, c1)"
  using assms
  by (simp add: ept_enable_def then_do_hvpp_assert Let_def ept_index_def ept_at_def)

text \<open>
  C8, at the input where the code departs from it: after \<open>ept_enable(2)\<close> and
  \<open>ept_disable()\<close> the count is still 2 and the array pointer is null, so \<open>ept_index(1)\<close>
  passes the assertion and reads \<open>ept_[1]\<close> through the null pointer instead of making
  an instance's pointer the active one.
\<close>

theorem ept_index_after_disable:
  "has_returned (ept_enable example_platform 2 (example_vcpu, example_cpu)) \<and>
   (1 :: 16 word) < ept_count_m (ept_disable (fst (flow_state
      (ept_enable example_platform 2 (example_vcpu, example_cpu))))) \<and>
   ept_m (ept_disable (fst (flow_state
      (ept_enable example_platform 2 (example_vcpu, example_cpu))))) = None \<and>
   ept_index example_platform 1
     (ept_disable (fst (flow_state (ept_enable example_platform 2 (example_vcpu, example_cpu)))),
      snd (flow_state (ept_enable example_platform 2 (example_vcpu, example_cpu)))) =
   Faulted Undefined_behaviour
     (ept_disable (fst (flow_state (ept_enable example_platform 2 (example_vcpu, example_cpu)))),
      snd (flow_state (ept_enable example_platform 2 (example_vcpu, example_cpu))))"
proof -
  have n: "ept_m example_vcpu = None" by (simp add: example_vcpu_def vcpu_t_ctor_def)
  obtain c1 where e: "ept_enable example_platform 2 (example_vcpu, example_cpu) =
     Done (example_vcpu\<lparr>ept_m := Some (map (new_ept example_platform) [0..<unat (2 :: 16 word)]),
             ept_count_m := 2, ept_index_m := 0\<rparr>, c1)"
    using ept_enable_returns [OF n, of 2 example_platform example_cpu] by auto
  let ?v = "ept_disable (example_vcpu\<lparr>ept_m := Some (map (new_ept example_platform) [0..<unat (2 :: 16 word)]),
             ept_count_m := 2, ept_index_m := 0\<rparr>)"
  have d: "ept_m ?v = None" "ept_count_m ?v = 2"
    by (simp_all add: ept_disable_def)
  then have lt: "(1 :: 16 word) < ept_count_m ?v" by simp
  have "ept_index example_platform 1 (?v, c1) = Faulted Undefined_behaviour (?v, c1)"
    using lt d(1) by (rule ept_index_null)
  then show ?thesis using e d lt by simp
qed

text \<open>
  C9. \<open>ept_disable\<close> is idempotent: without an instance array it changes nothing, after it
  the array pointer is null, and a second call leaves the result of the first as it is.
\<close>

theorem ept_disable_idempotent:
  "ept_disable (ept_disable v) = ept_disable v \<and>
   ept_m (ept_disable v) = None \<and>
   (ept_m v = None \<longrightarrow> ept_disable v = v)"
  by (simp add: ept_disable_def)

theorem ept_disable_idempotent_witness:
  "ept_m example_vcpu = None \<and> ept_disable example_vcpu = example_vcpu \<and>
   ept_m example_ept_vcpu \<noteq> None \<and>
   ept_m (ept_disable example_ept_vcpu) = None \<and>
   ept_disable (ept_disable example_ept_vcpu) = ept_disable example_ept_vcpu"
  using ept_disable_idempotent [of example_vcpu] ept_disable_idempotent [of example_ept_vcpu]
  by (simp add: example_vcpu_def vcpu_t_ctor_def example_ept_vcpu_def)

section \<open>The orchestrator\<close>

lemma check_cpu_features_iff:
  "check_cpu_features c \<longleftrightarrow>
     virtual_machine_extensions (features c) \<and> \<not> vmx_enable (cr4 c) \<and>
     vmcs_size_in_bytes (features c) \<le> page_size \<and> memory_type (features c) = write_back \<and>
     true_controls (features c) \<and> page_walk_length_4 (features c) \<and>
     memory_type_write_back (features c) \<and> invept (features c) \<and>
     invept_all_contexts (features c) \<and> execute_only_pages (features c) \<and>
     pde_2mb_pages (features c)"
  by (auto simp: check_cpu_features_def)

lemma start_stopped:
  assumes "\<not> started (global m)"
  shows "start p h m =
    (if asserts_enabled p \<and> vcpu_list (global m) \<noteq> None then Faulted Assertion_failed m
     else case vcpu_storage p of
            None \<Rightarrow> Returned not_enough_memory (m\<lparr>global := (global m)\<lparr>vcpu_list := None\<rparr>\<rparr>)
          | Some raw \<Rightarrow> start_body p h raw m)"
  using assms
  by (auto simp: start_def then_do_hvpp_assert start_body_def split: option.splits)

lemma start_rejects_unsupported:
  assumes "\<not> is_started m"
    and "asserts_enabled p \<longrightarrow> vcpu_list (global m) = None"
    and "vcpu_storage p = Some raw"
    and "caller_cpu_index p < length (cpus m)"
    and "\<not> check_cpu_features (cpus m ! caller_cpu_index p)"
  shows "start p h m =
    Returned not_supported
      (m\<lparr>global := (global m)\<lparr>vcpu_list := Some (map (\<lambda>i. vcpu_t_ctor (raw i)) [0..<length (cpus m)])\<rparr>\<rparr>)"
  using assms
  by (auto simp: is_started_def start_stopped start_body_def Let_def)


















text \<open>
  C6. The capability check fails exactly when a required capability is missing or VMX is
  already enabled in CR4. When it fails on the calling processor, \<open>start\<close> (called while
  stopped, with the array allocated) returns \<open>not_supported\<close>; no processor has been
  touched, \<open>is_started\<close> is still false and every virtual CPU is in \<open>off\<close>.
\<close>

theorem start_not_supported:
  "(check_cpu_features c \<longleftrightarrow>
      virtual_machine_extensions (features c) \<and> \<not> vmx_enable (cr4 c) \<and>
      vmcs_size_in_bytes (features c) \<le> page_size \<and> memory_type (features c) = write_back \<and>
      true_controls (features c) \<and> page_walk_length_4 (features c) \<and>
      memory_type_write_back (features c) \<and> invept (features c) \<and>
      invept_all_contexts (features c) \<and> execute_only_pages (features c) \<and>
      pde_2mb_pages (features c)) \<and>
   (\<not> is_started m \<longrightarrow> (asserts_enabled p \<longrightarrow> vcpu_list (global m) = None) \<longrightarrow>
    vcpu_storage p = Some raw \<longrightarrow> caller_cpu_index p < length (cpus m) \<longrightarrow>
    \<not> check_cpu_features (cpus m ! caller_cpu_index p) \<longrightarrow>
      (\<exists>m'. start p h m = Returned not_supported m' \<and> \<not> is_started m' \<and> cpus m' = cpus m \<and>
         (\<exists>vs. vcpu_list (global m') = Some vs \<and> length vs = length (cpus m) \<and>
               (\<forall>v \<in> set vs. state_m v = off))))"
proof (intro conjI impI)
  show "check_cpu_features c \<longleftrightarrow>
      virtual_machine_extensions (features c) \<and> \<not> vmx_enable (cr4 c) \<and>
      vmcs_size_in_bytes (features c) \<le> page_size \<and> memory_type (features c) = write_back \<and>
      true_controls (features c) \<and> page_walk_length_4 (features c) \<and>
      memory_type_write_back (features c) \<and> invept (features c) \<and>
      invept_all_contexts (features c) \<and> execute_only_pages (features c) \<and>
      pde_2mb_pages (features c)"
    by (rule check_cpu_features_iff)
next
  assume a: "\<not> is_started m" "asserts_enabled p \<longrightarrow> vcpu_list (global m) = None"
    "vcpu_storage p = Some raw" "caller_cpu_index p < length (cpus m)"
    "\<not> check_cpu_features (cpus m ! caller_cpu_index p)"
  show "\<exists>m'. start p h m = Returned not_supported m' \<and> \<not> is_started m' \<and> cpus m' = cpus m \<and>
         (\<exists>vs. vcpu_list (global m') = Some vs \<and> length vs = length (cpus m) \<and>
               (\<forall>v \<in> set vs. state_m v = off))"
    using a(1) by (auto simp: start_rejects_unsupported [OF a] is_started_def vcpu_t_ctor_def)
qed

theorem start_not_supported_witness:
  "\<not> is_started \<lparr>cpus = [example_unsupported_cpu], global = global_init\<rparr> \<and>
   vcpu_list (global \<lparr>cpus = [example_unsupported_cpu], global = global_init\<rparr>) = None \<and>
   vcpu_storage example_platform = Some (\<lambda>i. example_raw) \<and>
   caller_cpu_index example_platform < length [example_unsupported_cpu] \<and>
   \<not> check_cpu_features example_unsupported_cpu \<and>
   has_returned (start example_platform example_handler
       \<lparr>cpus = [example_unsupported_cpu], global = global_init\<rparr>) \<and>
   \<not> is_started (flow_state (start example_platform example_handler
       \<lparr>cpus = [example_unsupported_cpu], global = global_init\<rparr>))"
proof -
  let ?m = "\<lparr>cpus = [example_unsupported_cpu], global = global_init\<rparr>"
  have 1: "\<not> is_started ?m" by (simp add: is_started_def global_init_def)
  have 2: "asserts_enabled example_platform \<longrightarrow> vcpu_list (global ?m) = None"
    by (simp add: global_init_def)
  have 3: "vcpu_storage example_platform = Some (\<lambda>i. example_raw)"
    by (simp add: example_platform_def)
  have 4: "caller_cpu_index example_platform < length (cpus ?m)"
    by (simp add: example_platform_def)
  have 5: "\<not> check_cpu_features (cpus ?m ! caller_cpu_index example_platform)"
    by (simp add: example_platform_def check_cpu_features_def example_unsupported_cpu_def)
  from start_not_supported [of example_unsupported_cpu ?m example_platform "\<lambda>i. example_raw"
      example_handler] 1 2 3 4 5
  obtain m' where "start example_platform example_handler ?m = Returned not_supported m'"
    "\<not> is_started m'"
    by blast
  then show ?thesis using 1 2 3 4 5 by (simp add: example_platform_def global_init_def)
qed



section \<open>Creating the device\<close>

text \<open>
  C10. For a name of 64 characters or more \<open>device::create\<close> returns \<open>invalid_argument\<close> at
  once: no kernel call is made and the device, with its implementation pointer, is as
  before.
\<close>

theorem create_name_too_long:
  "length (name d) \<ge> 64 \<Longrightarrow> create k (d, ks) = Returned invalid_argument (d, ks)"
  by (simp add: create_def MAX_BUFFER_SIZE_def)

theorem create_name_too_long_witness:
  "length (name example_device) \<ge> 64 \<and>
   create example_kernel (example_device, []) = Returned invalid_argument (example_device, [])"
  using create_name_too_long [of example_device example_kernel "[]"]
  by (simp add: example_device_def)

end
